theory Spec2Isabelle
  imports Complex_Main
begin

section \<open>Job records and the job manager (jobs/models.py, jobs/job_manager.py)\<close>

text \<open>
  \<open>JobStatus\<close> is the enumeration of jobs/models.py. \<open>JobMetadata\<close> and \<open>JobResult\<close>
  are its pydantic models; the optional attributes are options, page counts are Python
  integers, and \<open>datetime.now()\<close> is a time stamp handed to every operation that reads
  the clock. The items of a result are opaque here (type \<open>'i\<close>).
\<close>

datatype JobStatus = PENDING | PROCESSING | DONE | ERROR | CANCELLED

record JobMetadata =
  job_id :: string
  filename :: string
  file_path :: string
  status :: JobStatus
  created_at :: nat
  started_at :: "nat option"
  completed_at :: "nat option"
  total_pages :: "int option"
  processed_pages :: int
  error_message :: "string option"

record 'i JobResult =
  r_job_id :: string
  r_status :: JobStatus
  r_total_pages :: int
  r_relevant_pages :: int
  r_records_found :: int
  r_items :: "'i list"
  r_processing_time_seconds :: "nat option"
  r_error_message :: "string option"

text \<open>
  The manager holds the two dictionaries \<open>_jobs\<close> and \<open>_results\<close>. Every method runs
  under the one lock, so each is an atomic function on this state.
\<close>

record 'i JobManager =
  jobs :: "string \<rightharpoonup> JobMetadata"
  results :: "string \<rightharpoonup> 'i JobResult"

datatype error =
    JobExists string      \<comment> \<open>ValueError: job already exists\<close>
  | JobNotFound string    \<comment> \<open>ValueError: job not found\<close>
  | RangeStepZero         \<comment> \<open>ValueError: range() arg 3 must not be zero\<close>
  | DictChangedSize       \<comment> \<open>RuntimeError: dictionary changed size during iteration\<close>

definition new_manager :: "'i JobManager" where
  "new_manager = \<lparr>jobs = Map.empty, results = Map.empty\<rparr>"

definition create_job ::
  "'i JobManager \<Rightarrow> string \<Rightarrow> string \<Rightarrow> string \<Rightarrow> nat \<Rightarrow> error + ('i JobManager \<times> JobMetadata)" where
  "create_job m jid fname fpath now =
     (if jid \<in> dom (jobs m) then Inl (JobExists jid)
      else
        (let metadata = \<lparr>job_id = jid, filename = fname, file_path = fpath, status = PENDING,
                          created_at = now, started_at = None, completed_at = None,
                          total_pages = None, processed_pages = 0, error_message = None\<rparr>
         in Inr (m\<lparr>jobs := (jobs m)(jid \<mapsto> metadata)\<rparr>, metadata)))"

definition start_job :: "'i JobManager \<Rightarrow> string \<Rightarrow> int \<Rightarrow> nat \<Rightarrow> error + 'i JobManager" where
  "start_job m jid n now =
     (case jobs m jid of
        None \<Rightarrow> Inl (JobNotFound jid)
      | Some j \<Rightarrow>
          Inr (m\<lparr>jobs := (jobs m)(jid \<mapsto>
                 j\<lparr>status := PROCESSING, started_at := Some now, total_pages := Some n\<rparr>)\<rparr>))"

definition update_progress :: "'i JobManager \<Rightarrow> string \<Rightarrow> int \<Rightarrow> 'i JobManager" where
  "update_progress m jid p =
     (case jobs m jid of
        None \<Rightarrow> m
      | Some j \<Rightarrow> m\<lparr>jobs := (jobs m)(jid \<mapsto> j\<lparr>processed_pages := p\<rparr>)\<rparr>)"

definition complete_job ::
  "'i JobManager \<Rightarrow> string \<Rightarrow> 'i JobResult \<Rightarrow> nat \<Rightarrow> error + 'i JobManager" where
  "complete_job m jid res now =
     (case jobs m jid of
        None \<Rightarrow> Inl (JobNotFound jid)
      | Some j \<Rightarrow>
          Inr (m\<lparr>jobs := (jobs m)(jid \<mapsto> j\<lparr>status := DONE, completed_at := Some now\<rparr>),
                 results := (results m)(jid \<mapsto> res)\<rparr>))"

definition fail_job :: "'i JobManager \<Rightarrow> string \<Rightarrow> string \<Rightarrow> nat \<Rightarrow> 'i JobManager" where
  "fail_job m jid msg now =
     (case jobs m jid of
        None \<Rightarrow> m
      | Some j \<Rightarrow>
          m\<lparr>jobs := (jobs m)(jid \<mapsto>
               j\<lparr>status := ERROR, completed_at := Some now, error_message := Some msg\<rparr>)\<rparr>)"

definition cancel_job :: "'i JobManager \<Rightarrow> string \<Rightarrow> nat \<Rightarrow> 'i JobManager" where
  "cancel_job m jid now =
     (case jobs m jid of
        None \<Rightarrow> m
      | Some j \<Rightarrow>
          m\<lparr>jobs := (jobs m)(jid \<mapsto> j\<lparr>status := CANCELLED, completed_at := Some now\<rparr>)\<rparr>)"

definition get_job :: "'i JobManager \<Rightarrow> string \<Rightarrow> JobMetadata option" where
  "get_job m jid = jobs m jid"

definition terminal :: "JobStatus \<Rightarrow> bool" where
  "terminal s = (s = DONE \<or> s = ERROR \<or> s = CANCELLED)"

text \<open>
  The endpoint \<open>DELETE /job/{job_id}\<close> of main_refactored.py, the only caller of
  \<open>cancel_job\<close>: it answers 404 for an unknown job, 400 for a DONE or ERROR job, and
  cancels otherwise.
\<close>

datatype http_error = Http404 | Http400

definition cancel_endpoint :: "'i JobManager \<Rightarrow> string \<Rightarrow> nat \<Rightarrow> http_error + 'i JobManager" where
  "cancel_endpoint m jid now =
     (case get_job m jid of
        None \<Rightarrow> Inl Http404
      | Some j \<Rightarrow>
          if status j = DONE \<or> status j = ERROR then Inl Http400
          else Inr (cancel_job m jid now))"

text \<open>
  The operations as data, so that sequences of calls can be run. An operation that raises
  does so before it writes anything, so the table is then unchanged.
\<close>

datatype 'i job_op =
    CreateJob string string string
  | StartJob string int
  | UpdateProgress string int
  | CompleteJob string "'i JobResult"
  | FailJob string string
  | CancelJob string

fun exec :: "'i JobManager \<Rightarrow> 'i job_op \<Rightarrow> nat \<Rightarrow> 'i JobManager" where
  "exec m (CreateJob jid fname fpath) now =
     (case create_job m jid fname fpath now of Inl e \<Rightarrow> m | Inr (m', j) \<Rightarrow> m')"
| "exec m (StartJob jid n) now = (case start_job m jid n now of Inl e \<Rightarrow> m | Inr m' \<Rightarrow> m')"
| "exec m (UpdateProgress jid p) now = update_progress m jid p"
| "exec m (CompleteJob jid res) now =
     (case complete_job m jid res now of Inl e \<Rightarrow> m | Inr m' \<Rightarrow> m')"
| "exec m (FailJob jid msg) now = fail_job m jid msg now"
| "exec m (CancelJob jid) now = cancel_job m jid now"

fun run :: "'i JobManager \<Rightarrow> ('i job_op \<times> nat) list \<Rightarrow> 'i JobManager" where
  "run m [] = m"
| "run m ((c, now) # cs) = run (exec m c now) cs"

text \<open>The invariant of the data model: once the total is known, the progress is within it.\<close>

definition pages_bounded :: "'i JobManager \<Rightarrow> bool" where
  "pages_bounded m =
     (\<forall>jid j t. jobs m jid = Some j \<longrightarrow> total_pages j = Some t \<longrightarrow> processed_pages j \<le> t)"

text \<open>
  What a caller has to respect for the invariant to survive, since the manager stores the
  numbers it is given: a progress within the known total, and a total that is not below
  the progress already recorded.
\<close>

fun caller_ok :: "'i JobManager \<Rightarrow> 'i job_op \<Rightarrow> bool" where
  "caller_ok m (UpdateProgress jid p) =
     (case jobs m jid of
        None \<Rightarrow> True
      | Some j \<Rightarrow> (case total_pages j of None \<Rightarrow> True | Some t \<Rightarrow> p \<le> t))"
| "caller_ok m (StartJob jid n) =
     (case jobs m jid of None \<Rightarrow> True | Some j \<Rightarrow> processed_pages j \<le> n)"
| "caller_ok m _ = True"

fun run_ok :: "'i JobManager \<Rightarrow> ('i job_op \<times> nat) list \<Rightarrow> bool" where
  "run_ok m [] = True"
| "run_ok m ((c, now) # cs) = (caller_ok m c \<and> run_ok (exec m c now) cs)"

text \<open>Example tables and call sequences, used to evaluate the operations.\<close>

definition processing_table :: "unit JobManager" where
  "processing_table =
     run new_manager [(CreateJob ''j1'' ''a.pdf'' ''storage/uploads/j1.pdf'', 0), (StartJob ''j1'' 25, 1)]"

definition done_table :: "nat JobManager" where
  "done_table =
     run new_manager
       [(CreateJob ''j1'' ''a.pdf'' ''storage/uploads/j1.pdf'', 0), (StartJob ''j1'' 25, 1),
        (CompleteJob ''j1'' \<lparr>r_job_id = ''j1'', r_status = DONE, r_total_pages = 25,
            r_relevant_pages = 3, r_records_found = 1, r_items = [0], 
            r_processing_time_seconds = Some 4, r_error_message = None\<rparr>, 5)]"

definition progress_calls :: "(unit job_op \<times> nat) list" where
  "progress_calls =
     [(CreateJob ''j1'' ''a.pdf'' ''storage/uploads/j1.pdf'', 0), (StartJob ''j1'' 25, 1),
      (UpdateProgress ''j1'' 10, 2)]"

definition overrun_calls :: "(unit job_op \<times> nat) list" where
  "overrun_calls =
     [(CreateJob ''j1'' ''a.pdf'' ''storage/uploads/j1.pdf'', 0), (StartJob ''j1'' 5, 1),
      (UpdateProgress ''j1'' 10, 2)]"

subsection \<open>The background task and the uploaded file (main_refactored.py, main.py)\<close>

text \<open>
  The server of main_refactored.py: the job manager and the files under
  \<open>storage/uploads\<close>. \<open>upload_pdf\<close> writes the file and creates the job;
  \<open>run_ocr_in_background\<close> awaits the worker \<open>process_ocr_job\<close> and records its outcome.
  The worker runs the OCR collaborators; it only reads the file, so its outcome is an
  argument here: the \<open>JobResult\<close> it returns, or the text of the exception that escapes
  the executor.
\<close>

record 'i server =
  manager :: "'i JobManager"
  files :: "string set"

definition or_default :: "string option \<Rightarrow> string \<Rightarrow> string" where
  \<comment> \<open>\<open>x or d\<close> on an optional string: None and the empty string are falsy\<close>
  "or_default x d = (case x of None \<Rightarrow> d | Some s \<Rightarrow> if s = [] then d else s)"

definition error_text :: "error \<Rightarrow> string" where
  \<comment> \<open>\<open>str(e)\<close>; the accents of the messages are left out\<close>
  "error_text e =
     (case e of
        JobExists jid \<Rightarrow> ''Job '' @ jid @ '' ja existe''
      | JobNotFound jid \<Rightarrow> ''Job '' @ jid @ '' nao encontrado''
      | RangeStepZero \<Rightarrow> ''range() arg 3 must not be zero''
      | DictChangedSize \<Rightarrow> ''dictionary changed size during iteration'')"

definition run_ocr_in_background ::
  "'i server \<Rightarrow> string \<Rightarrow> string \<Rightarrow> string + 'i JobResult \<Rightarrow> nat \<Rightarrow> 'i server" where
  "run_ocr_in_background sv jid pdf_path outcome now =
     (case outcome of
        Inl exn \<Rightarrow> sv\<lparr>manager := fail_job (manager sv) jid exn now\<rparr>
      | Inr result \<Rightarrow>
          if r_status result = DONE then
            (case complete_job (manager sv) jid result now of
               Inr m' \<Rightarrow> sv\<lparr>manager := m'\<rparr>
             | Inl e \<Rightarrow> sv\<lparr>manager := fail_job (manager sv) jid (error_text e) now\<rparr>)
          else
            sv\<lparr>manager := fail_job (manager sv) jid
                 (or_default (r_error_message result) ''Erro desconhecido'') now\<rparr>)"

text \<open>
  The endpoint \<open>POST /process/{job_id}\<close>: it is here, not in the manager, that a job
  which is not PENDING is refused. On success it schedules the background task with the
  job's id and file; it does not call \<open>start_job\<close>.
\<close>

definition process_pdf :: "'i server \<Rightarrow> string \<Rightarrow> http_error + (string \<times> string)" where
  "process_pdf sv jid =
     (case get_job (manager sv) jid of
        None \<Rightarrow> Inl Http404
      | Some j \<Rightarrow>
          if status j \<noteq> PENDING then Inl Http400
          else if file_path j \<notin> files sv then Inl Http404
          else Inr (jid, file_path j))"

text \<open>
  The older server of main.py keeps a cache of dictionaries instead of the manager. Its
  background task \<open>process_in_background\<close> has a \<open>finally\<close> clause that unlinks the file
  when it exists, whatever the worker did.
\<close>

record old_server =
  processing_cache :: "string \<rightharpoonup> (string \<rightharpoonup> string)"
  old_files :: "string set"

definition cache_set :: "old_server \<Rightarrow> string \<Rightarrow> (string \<times> string) list \<Rightarrow> old_server" where
  "cache_set sv jid kvs =
     (case processing_cache sv jid of
        None \<Rightarrow> sv
      | Some d \<Rightarrow> sv\<lparr>processing_cache := (processing_cache sv)(jid \<mapsto> d ++ map_of (rev kvs))\<rparr>)"

definition process_in_background ::
  "old_server \<Rightarrow> string \<Rightarrow> string \<Rightarrow> string + (string \<times> string) list \<Rightarrow> string \<Rightarrow> old_server" where
  "process_in_background sv jid pdf_path outcome now =
     (let sv1 = cache_set sv jid [(''status'', ''processing''), (''started_at'', now)];
          sv2 = (case outcome of
                   Inr result \<Rightarrow> cache_set sv1 jid (result @ [(''completed_at'', now)])
                 | Inl exn \<Rightarrow> cache_set sv1 jid [(''status'', ''error''), (''error'', exn)])
      in sv2\<lparr>old_files := old_files sv2 - {pdf_path}\<rparr>)"


section \<open>Batches of pages (services/pdf_service.py)\<close>

text \<open>
  \<open>range(start, stop, step)\<close> on Python integers: it raises for a zero step, counts up
  for a positive one and down for a negative one.
\<close>

function range_up :: "int \<Rightarrow> int \<Rightarrow> int \<Rightarrow> int list" where
  "range_up start stop step =
     (if 0 < step \<and> start < stop then start # range_up (start + step) stop step else [])"
  by pat_completeness auto
termination
  by (relation "measure (\<lambda>(start, stop, step). nat (stop - start))") auto

function range_down :: "int \<Rightarrow> int \<Rightarrow> int \<Rightarrow> int list" where
  "range_down start stop step =
     (if step < 0 \<and> stop < start then start # range_down (start + step) stop step else [])"
  by pat_completeness auto
termination
  by (relation "measure (\<lambda>(start, stop, step). nat (start - stop))") auto

declare range_up.simps [simp del] range_down.simps [simp del]

definition py_range :: "int \<Rightarrow> int \<Rightarrow> int \<Rightarrow> error + int list" where
  "py_range start stop step =
     (if step = 0 then Inl RangeStepZero
      else if 0 < step then Inr (range_up start stop step)
      else Inr (range_down start stop step))"

definition calculate_batches :: "int \<Rightarrow> int \<Rightarrow> error + (int \<times> int) list" where
  "calculate_batches n_pages batch_size =
     (case py_range 1 (n_pages + 1) batch_size of
        Inl e \<Rightarrow> Inl e
      | Inr starts \<Rightarrow>
          Inr (map (\<lambda>start. (start, min (start + batch_size - 1) n_pages)) starts))"

text \<open>The pages of a batch, both ends included.\<close>

definition pages_of :: "int \<times> int \<Rightarrow> int list" where
  "pages_of b = [fst b..snd b]"

section \<open>Text\<close>

text \<open>
  A Python \<open>str\<close> is a sequence of Unicode code points, here a list of natural numbers.
  \<open>cps\<close> writes an ASCII literal as such a sequence; a letter with an accent is written
  by its code point.

  The character tables of the Python runtime are not part of the repository. They are a
  parameter: \<open>u_isspace\<close> is \<open>str.isspace\<close> of one character (what \<open>str.strip\<close> removes
  and \<open>\s\<close> matches), \<open>u_isword\<close> is the class \<open>\w\<close>, \<open>u_ieq p c\<close> says that the
  pattern character \<open>p\<close> matches the text character \<open>c\<close> under \<open>re.IGNORECASE\<close>, and
  \<open>u_upper\<close> is \<open>str.upper\<close> of one character (one to three characters).
\<close>

type_synonym ustr = "nat list"

definition cps :: "string \<Rightarrow> ustr" where
  "cps s = map of_char s"

record unicode =
  u_isspace :: "nat \<Rightarrow> bool"
  u_isword :: "nat \<Rightarrow> bool"
  u_ieq :: "nat \<Rightarrow> nat \<Rightarrow> bool"
  u_upper :: "nat \<Rightarrow> nat list"

definition ascii_lower :: "nat \<Rightarrow> nat" where
  "ascii_lower c = (if 65 \<le> c \<and> c \<le> 90 then c + 32 else c)"

text \<open>
  The tables cut down to ASCII, where they are small enough to write out: beyond code
  point 127 this table has no space, no word character and no letter case.
\<close>

definition ascii_unicode :: unicode where
  "ascii_unicode =
     \<lparr>u_isspace = (\<lambda>c. (9 \<le> c \<and> c \<le> 13) \<or> (28 \<le> c \<and> c \<le> 32)),
      u_isword = (\<lambda>c. (48 \<le> c \<and> c \<le> 57) \<or> (65 \<le> c \<and> c \<le> 90) \<or> c = 95 \<or> (97 \<le> c \<and> c \<le> 122)),
      u_ieq = (\<lambda>p c. ascii_lower p = ascii_lower c),
      u_upper = (\<lambda>c. [if 97 \<le> c \<and> c \<le> 122 then c - 32 else c])\<rparr>"

text \<open>
  What the theorems about concrete ASCII texts need of the runtime's tables: on ASCII
  text they are the tables above, and no character of a pattern from Latin-1 beyond ASCII
  matches an ASCII character.
\<close>

definition python_ascii :: "unicode \<Rightarrow> bool" where
  "python_ascii U =
     ((\<forall>c. c < 128 \<longrightarrow>
         u_isspace U c = u_isspace ascii_unicode c \<and>
         u_isword U c = u_isword ascii_unicode c \<and>
         u_upper U c = u_upper ascii_unicode c) \<and>
      (\<forall>p c. p < 256 \<longrightarrow> c < 128 \<longrightarrow>
         u_ieq U p c = (p < 128 \<and> ascii_lower p = ascii_lower c)))"

definition strip :: "unicode \<Rightarrow> ustr \<Rightarrow> ustr" where
  "strip U s = rev (dropWhile (u_isspace U) (rev (dropWhile (u_isspace U) s)))"

definition py_upper :: "unicode \<Rightarrow> ustr \<Rightarrow> ustr" where
  "py_upper U s = concat (map (u_upper U) s)"

text \<open>\<open>s.split(sep)\<close> for a separator of one character: never an empty list.\<close>

fun split_on :: "nat \<Rightarrow> ustr \<Rightarrow> ustr list" where
  "split_on sep [] = [[]]"
| "split_on sep (c # cs) =
     (if c = sep then [] # split_on sep cs
      else (case split_on sep cs of [] \<Rightarrow> [[c]] | l # ls \<Rightarrow> (c # l) # ls))"

primrec starts_with :: "'a list \<Rightarrow> 'a list \<Rightarrow> bool" where
  "starts_with [] s = True"
| "starts_with (p # ps) s = (case s of [] \<Rightarrow> False | c # cs \<Rightarrow> p = c \<and> starts_with ps cs)"

text \<open>\<open>needle in hay\<close> on strings.\<close>

fun contains :: "'a list \<Rightarrow> 'a list \<Rightarrow> bool" where
  "contains needle [] = (needle = [])"
| "contains needle (c # cs) = (starts_with needle (c # cs) \<or> contains needle cs)"

text \<open>\<open>str(n)\<close> of an integer.\<close>

function show_nat :: "nat \<Rightarrow> string" where
  "show_nat n =
     (if n < 10 then [''0123456789'' ! n] else show_nat (n div 10) @ [''0123456789'' ! (n mod 10)])"
  by pat_completeness auto
termination
  by (relation "measure id") auto

declare show_nat.simps [simp del]

definition show_int :: "int \<Rightarrow> string" where
  "show_int i = (if i < 0 then CHR ''-'' # show_nat (nat (- i)) else show_nat (nat i))"

section \<open>The page relevance filter (services/page_filter.py)\<close>

text \<open>
  The keyword list \<open>self.keywords\<close> of \<open>PageFilter.__init__\<close>, entry by entry and in its order; the entry
  ITAU stands in it twice. The accented capitals are U+00CA, U+00C1, U+00C7 and U+00C3.
\<close>

definition keyword_list :: "ustr list" where
  "keyword_list =
     [cps ''CONV'' @ [202] @ cps ''NIO'',
      cps ''CONVENIO'',
      cps ''BANCO'',
      cps ''DADOS BANC'' @ [193] @ cps ''RIOS'',
      cps ''DADOS BANCARIOS'',
      cps ''AG'' @ [202] @ cps ''NCIA'',
      cps ''AGENCIA'',
      cps ''CONTA'',
      cps ''CONTA CORRENTE'',
      cps ''CONTA POUPAN'' @ [199] @ cps ''A'',
      cps ''POUPANCA'',
      cps ''CPF'',
      cps ''CNPJ'',
      cps ''INSTITUI'' @ [199, 195] @ cps ''O FINANCEIRA'',
      cps ''INSTITUICAO FINANCEIRA'',
      cps ''BANCO DO BRASIL'',
      cps ''BRADESCO'',
      cps ''ITAU'',
      cps ''ITAU'',
      cps ''SANTANDER'',
      cps ''CAIXA'',
      cps ''CAIXA ECONOMICA'',
      cps ''NUBANK'',
      cps ''INTER'']"

definition high_priority_keywords :: "ustr list" where
  "high_priority_keywords =
     [cps ''CONV'' @ [202] @ cps ''NIO'',
      cps ''CONVENIO'',
      cps ''DADOS BANC'' @ [193] @ cps ''RIOS'',
      cps ''DADOS BANCARIOS'']"

definition is_relevant_page :: "unicode \<Rightarrow> ustr \<Rightarrow> bool" where
  "is_relevant_page U text =
     (if text = [] \<or> length (strip U text) = 0 then False
      else
        (let text_upper = py_upper U text;
             keyword_count = length (filter (\<lambda>keyword. contains keyword text_upper) keyword_list);
             has_high_priority = list_ex (\<lambda>kw. contains kw text_upper) high_priority_keywords
         in 2 \<le> keyword_count \<or> has_high_priority))"

text \<open>
  One entry of the OCR results: a dictionary with the keys \<open>page\<close>, \<open>text\<close> and
  \<open>has_content\<close> (and \<open>error\<close> for a page that failed). \<open>filter_pages\<close> reads the last
  two with a default and \<open>page\<close> by subscript, which raises when the key is missing.
\<close>

record page_data =
  pd_page :: "int option"
  pd_text :: "ustr option"
  pd_has_content :: "bool option"
  pd_error :: "string option"

datatype key_error = KeyError string

definition get_default :: "'a option \<Rightarrow> 'a \<Rightarrow> 'a" where
  "get_default x d = (case x of None \<Rightarrow> d | Some v \<Rightarrow> v)"

fun filter_pages :: "unicode \<Rightarrow> page_data list \<Rightarrow> key_error + page_data list" where
  "filter_pages U [] = Inr []"
| "filter_pages U (pd # rest) =
     (if \<not> get_default (pd_has_content pd) False then filter_pages U rest
      else
        (let text = get_default (pd_text pd) [] in
         if is_relevant_page U text then
           (case pd_page pd of
              None \<Rightarrow> Inl (KeyError ''page'')
            | Some n \<Rightarrow>
                (case filter_pages U rest of
                   Inl e \<Rightarrow> Inl e
                 | Inr ps \<Rightarrow>
                     Inr (\<lparr>pd_page = Some n, pd_text = Some text, pd_has_content = Some True,
                           pd_error = None\<rparr> # ps)))
         else filter_pages U rest))"

text \<open>The keyword set of the specification: the distinct entries of the list.\<close>

definition keywords_found :: "unicode \<Rightarrow> ustr \<Rightarrow> ustr set" where
  "keywords_found U text = set (filter (\<lambda>k. contains k (py_upper U text)) keyword_list)"

section \<open>The label extractor (services/financial_label_extractor.py)\<close>

subsection \<open>Vocabulary and records\<close>

text \<open>
  The canonical fields are the values of the dictionary \<open>ROTULOS_VALIDOS\<close>, a closed
  set of seventeen names; \<open>campo_name\<close> gives back the string. The dictionary itself is
  the list of its items in the order of the source, which is the order the extractor
  tries the labels in. The accented capitals are U+00CD, U+00C7, U+00C3 and U+00D5.
\<close>

datatype campo =
    saldo_anterior | saldo_atual | saldo | entrada | saida | aplicacao | resgate
  | rendimento | rendimento_bruto | rendimento_liquido | ir | iof
  | tarifa | tarifa_paga | tarifa_devolvida | valor_cota | rentabilidade

fun campo_name :: "campo \<Rightarrow> string" where
  "campo_name saldo_anterior = ''saldo_anterior''"
| "campo_name saldo_atual = ''saldo_atual''"
| "campo_name saldo = ''saldo''"
| "campo_name entrada = ''entrada''"
| "campo_name saida = ''saida''"
| "campo_name aplicacao = ''aplicacao''"
| "campo_name resgate = ''resgate''"
| "campo_name rendimento = ''rendimento''"
| "campo_name rendimento_bruto = ''rendimento_bruto''"
| "campo_name rendimento_liquido = ''rendimento_liquido''"
| "campo_name ir = ''ir''"
| "campo_name iof = ''iof''"
| "campo_name tarifa = ''tarifa''"
| "campo_name tarifa_paga = ''tarifa_paga''"
| "campo_name tarifa_devolvida = ''tarifa_devolvida''"
| "campo_name valor_cota = ''valor_cota''"
| "campo_name rentabilidade = ''rentabilidade''"

definition ROTULOS_VALIDOS :: "(ustr \<times> campo) list" where
  "ROTULOS_VALIDOS =
     [(cps ''SALDO ANTERIOR'', saldo_anterior),
      (cps ''SALDO ATUAL'', saldo_atual),
      (cps ''SALDO'', saldo),
      (cps ''ENTRADA'', entrada),
      (cps ''SAIDA'', saida),
      (cps ''SA'' @ [205] @ cps ''DA'', saida),
      (cps ''APLICACAO'', aplicacao),
      (cps ''APLICA'' @ [199, 195] @ cps ''O'', aplicacao),
      (cps ''APLICACOES'', aplicacao),
      (cps ''APLICA'' @ [199, 213] @ cps ''ES'', aplicacao),
      (cps ''RESGATE'', resgate),
      (cps ''RESGATES'', resgate),
      (cps ''RENDIMENTO'', rendimento),
      (cps ''RENDIMENTOS'', rendimento),
      (cps ''RENDIMENTO BRUTO'', rendimento_bruto),
      (cps ''RENDIMENTO LIQUIDO'', rendimento_liquido),
      (cps ''RENDIMENTO L'' @ [205] @ cps ''QUIDO'', rendimento_liquido),
      (cps ''IMPOSTO DE RENDA'', ir),
      (cps ''IR'', ir),
      (cps ''IOF'', iof),
      (cps ''TARIFA'', tarifa),
      (cps ''TARIFA PAGA'', tarifa_paga),
      (cps ''TARIFA DEVOLVIDA'', tarifa_devolvida),
      (cps ''VALOR DA COTA'', valor_cota),
      (cps ''RENTABILIDADE'', rentabilidade)]"

definition VALOR_MAX_RAZOAVEL :: int where
  "VALOR_MAX_RAZOAVEL = 1000000000"

definition VALOR_MIN_RAZOAVEL :: int where
  "VALOR_MIN_RAZOAVEL = - 1000000000"

text \<open>
  The values the extractor stores are Python floats. Their arithmetic is a parameter, a
  type \<open>'f\<close> with the operations the code applies: the conversion \<open>float(d)\<close> of a
  decimal, \<open>0.0\<close>, \<open>+\<close>, \<open>-\<close>, the test \<open>abs(x) > n\<close> against an integer, the truth
  value \<open>bool(x)\<close> and the format \<open>{x:,.2f}\<close>. The integer \<open>0\<close> that \<open>sum\<close> starts
  from, and that \<open>x or 0\<close> yields, is added as \<open>0.0\<close>.
\<close>

record 'f float_ops =
  of_decimal :: "rat \<Rightarrow> 'f"
  f_zero :: 'f
  f_add :: "'f \<Rightarrow> 'f \<Rightarrow> 'f"
  f_sub :: "'f \<Rightarrow> 'f \<Rightarrow> 'f"
  f_abs_gt :: "'f \<Rightarrow> int \<Rightarrow> bool"
  f_truthy :: "'f \<Rightarrow> bool"
  f_format :: "'f \<Rightarrow> string"

text \<open>Exact arithmetic on rationals: one instance of the operations, for evaluation.\<close>

definition exact_ops :: "rat float_ops" where
  "exact_ops =
     \<lparr>of_decimal = (\<lambda>d. d), f_zero = 0, f_add = (+), f_sub = (-),
      f_abs_gt = (\<lambda>x n. \<bar>x\<bar> > of_int n), f_truthy = (\<lambda>x. x \<noteq> 0),
      f_format = (\<lambda>x. show_int \<lfloor>x\<rfloor>)\<rparr>"

definition py_sum :: "'f float_ops \<Rightarrow> 'f list \<Rightarrow> 'f" where
  "py_sum F xs = foldl (f_add F) (f_zero F) xs"

datatype validacao = OK | SUSPEITO

text \<open>
  One extracted value: the dictionary \<open>extract_from_line\<close> appends. An OK value has the
  key \<open>posicao_match\<close> and no \<open>motivo\<close>, a SUSPEITO one the reverse.
\<close>

record 'f labeled_value =
  rotulo :: ustr
  campo :: campo
  valor_texto :: ustr
  valor_decimal :: "'f option"
  pagina :: int
  linha_original :: ustr
  status_validacao :: validacao
  posicao_match :: "nat option"
  motivo :: "ustr option"

subsection \<open>The label patterns\<close>

text \<open>
  For a label \<open>L\<close> the pattern is
  \<^verbatim>\<open>\bL\b\s*[\:\-]?\s*([0-9]+(?:\.[0-9]+)*(?:,[0-9]+)?)\<close>, compiled with
  \<open>re.IGNORECASE\<close>. The matcher below follows it piece by piece. Each repetition is
  greedy, and none ever has to give a character back: a space is neither \<open>:\<close> nor
  \<open>-\<close> nor a digit, and everything after the first run of digits is optional. So the
  first match the engine finds at a position is the one computed here.
\<close>

definition is_digit :: "nat \<Rightarrow> bool" where
  "is_digit c = (48 \<le> c \<and> c \<le> 57)"

definition first_char :: "ustr \<Rightarrow> nat option" where
  "first_char s = (case s of [] \<Rightarrow> None | c # cs \<Rightarrow> Some c)"

definition word_char :: "unicode \<Rightarrow> nat option \<Rightarrow> bool" where
  "word_char U c = (case c of None \<Rightarrow> False | Some x \<Rightarrow> u_isword U x)"

text \<open>\<open>\b\<close> between the character before a position and the one at it.\<close>

definition boundary :: "unicode \<Rightarrow> nat option \<Rightarrow> nat option \<Rightarrow> bool" where
  "boundary U before after = (word_char U before \<noteq> word_char U after)"

text \<open>
  The escaped label, character by character: the last character matched (the one before
  the position reached) and the rest of the text.
\<close>

fun match_literal :: "unicode \<Rightarrow> ustr \<Rightarrow> nat option \<Rightarrow> ustr \<Rightarrow> (nat option \<times> ustr) option" where
  "match_literal U [] before s = Some (before, s)"
| "match_literal U (p # ps) before [] = None"
| "match_literal U (p # ps) before (c # cs) =
     (if u_ieq U p c then match_literal U ps (Some c) cs else None)"

text \<open>\<open>[\:\-]?\<close>\<close>

definition opt_sep :: "ustr \<Rightarrow> ustr" where
  "opt_sep s = (case s of [] \<Rightarrow> [] | c # r \<Rightarrow> if c = 58 \<or> c = 45 then r else s)"

text \<open>\<open>(?:\.[0-9]+)*\<close>: what it takes and what it leaves.\<close>

function dot_groups :: "ustr \<Rightarrow> ustr \<times> ustr" where
  "dot_groups s =
     (case s of
        [] \<Rightarrow> ([], s)
      | c # r \<Rightarrow>
          if c = 46 \<and> takeWhile is_digit r \<noteq> [] then
            (case dot_groups (dropWhile is_digit r) of
               (g, rest) \<Rightarrow> (c # takeWhile is_digit r @ g, rest))
          else ([], s))"
  by pat_completeness auto
termination
  by (relation "measure length") (auto simp: less_Suc_eq_le length_dropWhile_le)

declare dot_groups.simps [simp del]

text \<open>\<open>(?:,[0-9]+)?\<close>\<close>

definition comma_group :: "ustr \<Rightarrow> ustr \<times> ustr" where
  "comma_group s =
     (case s of
        [] \<Rightarrow> ([], s)
      | c # r \<Rightarrow>
          if c = 44 \<and> takeWhile is_digit r \<noteq> [] then
            (c # takeWhile is_digit r, dropWhile is_digit r)
          else ([], s))"

text \<open>The group: the text it captures and the rest.\<close>

definition numeral_group :: "ustr \<Rightarrow> (ustr \<times> ustr) option" where
  "numeral_group s =
     (if takeWhile is_digit s = [] then None
      else
        (case dot_groups (dropWhile is_digit s) of
           (g, r1) \<Rightarrow>
             (case comma_group r1 of
                (c, r2) \<Rightarrow> Some (takeWhile is_digit s @ g @ c, r2))))"

text \<open>
  An attempt at one position: \<open>before\<close> is the character before it, \<open>s\<close> the text from
  it on. The result is the captured text and what follows the match.
\<close>

definition match_here :: "unicode \<Rightarrow> ustr \<Rightarrow> nat option \<Rightarrow> ustr \<Rightarrow> (ustr \<times> ustr) option" where
  "match_here U label before s =
     (if \<not> boundary U before (first_char s) then None
      else
        (case match_literal U label before s of
           None \<Rightarrow> None
         | Some (lst, r) \<Rightarrow>
             if \<not> boundary U lst (first_char r) then None
             else numeral_group
                    (dropWhile (u_isspace U) (opt_sep (dropWhile (u_isspace U) r)))))"

text \<open>
  \<open>finditer\<close>: the positions are tried from left to right, and after a match the search
  goes on where the match ended. \<open>skip\<close> counts the characters of the last match still to
  be passed over. The results are the start of each match and its group.
\<close>

fun scan :: "unicode \<Rightarrow> ustr \<Rightarrow> nat \<Rightarrow> nat \<Rightarrow> nat option \<Rightarrow> ustr \<Rightarrow> (nat \<times> ustr) list" where
  "scan U label pos skip before [] = []"
| "scan U label pos skip before (c # cs) =
     (if 0 < skip then scan U label (pos + 1) (skip - 1) (Some c) cs
      else
        (case match_here U label before (c # cs) of
           None \<Rightarrow> scan U label (pos + 1) 0 (Some c) cs
         | Some (g, rest) \<Rightarrow>
             (pos, g) # scan U label (pos + 1) (length cs - length rest) (Some c) cs))"

definition finditer :: "unicode \<Rightarrow> ustr \<Rightarrow> ustr \<Rightarrow> (nat \<times> ustr) list" where
  "finditer U label linha = scan U label 0 0 None linha"

subsection \<open>Numbers\<close>

text \<open>
  \<open>Decimal(s)\<close> on the plain numerals: spaces around, an optional sign, digits, and at
  most one point with digits on either side of it. The value is exact. The constructor
  also reads
  exponents, underscores, digits outside ASCII, NaN and Infinity; the group of a label
  pattern holds none of these, and they are not read here.
\<close>

definition nat_of_digits :: "ustr \<Rightarrow> nat" where
  "nat_of_digits ds = foldl (\<lambda>a c. 10 * a + (c - 48)) 0 ds"

definition unsigned_decimal :: "ustr \<Rightarrow> rat option" where
  "unsigned_decimal s =
     (let ip = takeWhile is_digit s in
      case dropWhile is_digit s of
        [] \<Rightarrow> if ip = [] then None else Some (of_nat (nat_of_digits ip))
      | c # fp \<Rightarrow>
          if c = 46 \<and> list_all is_digit fp \<and> (ip \<noteq> [] \<or> fp \<noteq> []) then
            Some (of_nat (nat_of_digits ip) + of_nat (nat_of_digits fp) / 10 ^ length fp)
          else None)"

definition py_Decimal :: "unicode \<Rightarrow> ustr \<Rightarrow> rat option" where
  "py_Decimal U s =
     (case strip U s of
        [] \<Rightarrow> None
      | c # r \<Rightarrow>
          if c = 45 then map_option uminus (unsigned_decimal r)
          else if c = 43 then unsigned_decimal r
          else unsigned_decimal (c # r))"

definition parse_brazilian_number :: "unicode \<Rightarrow> ustr \<Rightarrow> rat option" where
  "parse_brazilian_number U texto =
     (let texto_normalizado =
            map (\<lambda>c. if c = 44 then 46 else c) (filter (\<lambda>c. c \<noteq> 46) (strip U texto))
      in case py_Decimal U texto_normalizado of
           None \<Rightarrow> None
         | Some valor \<Rightarrow>
             if valor > of_int VALOR_MAX_RAZOAVEL then None
             else if valor < of_int VALOR_MIN_RAZOAVEL then None
             else Some valor)"

subsection \<open>Extraction\<close>

definition motivo_prefix :: ustr where
  \<comment> \<open>\<open>Valor fora dos limites razoaveis: \<close>, with U+00E1 for the accented letter\<close>
  "motivo_prefix = cps ''Valor fora dos limites razo'' @ [225] @ cps ''veis: ''"

definition make_value ::
  "unicode \<Rightarrow> 'f float_ops \<Rightarrow> ustr \<Rightarrow> int \<Rightarrow> ustr \<Rightarrow> campo \<Rightarrow> nat \<times> ustr \<Rightarrow> 'f labeled_value" where
  "make_value U F linha page_num label cmp m =
     (case m of
        (start, texto_valor) \<Rightarrow>
          (case parse_brazilian_number U texto_valor of
             Some valor_dec \<Rightarrow>
               \<lparr>rotulo = label, campo = cmp, valor_texto = texto_valor,
                valor_decimal = Some (of_decimal F valor_dec), pagina = page_num,
                linha_original = strip U linha, status_validacao = OK,
                posicao_match = Some start, motivo = None\<rparr>
           | None \<Rightarrow>
               \<lparr>rotulo = label, campo = cmp, valor_texto = texto_valor,
                valor_decimal = None, pagina = page_num,
                linha_original = strip U linha, status_validacao = SUSPEITO,
                posicao_match = None, motivo = Some (motivo_prefix @ texto_valor)\<rparr>))"

definition extract_from_line ::
  "unicode \<Rightarrow> 'f float_ops \<Rightarrow> ustr \<Rightarrow> int \<Rightarrow> 'f labeled_value list" where
  "extract_from_line U F linha page_num =
     concat (map (\<lambda>(label, cmp). map (make_value U F linha page_num label cmp)
                                      (finditer U label linha))
                 ROTULOS_VALIDOS)"

text \<open>
  The grouping loop of \<open>extract_from_text\<close>: a dictionary from field to list, as the list
  of its items in insertion order.
\<close>

fun group_append :: "'k \<Rightarrow> 'v \<Rightarrow> ('k \<times> 'v list) list \<Rightarrow> ('k \<times> 'v list) list" where
  "group_append k v [] = [(k, [v])]"
| "group_append k v ((k', vs) # rest) =
     (if k = k' then (k', vs @ [v]) # rest else (k', vs) # group_append k v rest)"

definition extract_from_text ::
  "unicode \<Rightarrow> 'f float_ops \<Rightarrow> ustr \<Rightarrow> int \<Rightarrow> (campo \<times> 'f labeled_value list) list" where
  "extract_from_text U F texto page_num =
     (let linhas = split_on 10 texto;
          todos_valores =
            concat (map (\<lambda>linha. if strip U linha \<noteq> [] then extract_from_line U F linha page_num
                                  else [])
                        linhas)
      in foldl (\<lambda>valores_por_campo valor. group_append (campo valor) valor valores_por_campo)
               [] todos_valores)"

subsection \<open>Totals\<close>

text \<open>
  \<open>calculate_totals_safe\<close> takes the dictionary that \<open>extract_from_text\<close> returns, from
  field to values. Its result is a flat dictionary whose keys are the strings the code
  builds, \<open>total_<field>\<close>, \<open>total_<field>_erro\<close> and \<open>total_<field>_count\<close>, and the
  two flags. The values of the keys:
\<close>

datatype 'f pyval = PNone | PFloat 'f | PInt int | PStr string | PBool bool | PList "string list"

definition total_key :: "campo \<Rightarrow> string" where
  "total_key c = ''total_'' @ campo_name c"

definition erro_key :: "campo \<Rightarrow> string" where
  "erro_key c = ''total_'' @ campo_name c @ ''_erro''"

definition count_key :: "campo \<Rightarrow> string" where
  "count_key c = ''total_'' @ campo_name c @ ''_count''"

definition valores_ok_of :: "'f labeled_value list \<Rightarrow> 'f list" where
  "valores_ok_of valores =
     List.map_filter (\<lambda>v. if status_validacao v = OK then valor_decimal v else None) valores"

text \<open>One round of the loop over the fields: the dictionary and the list of fields in error.\<close>

definition totals_step ::
  "'f float_ops \<Rightarrow> (string \<rightharpoonup> 'f pyval) \<times> string list \<Rightarrow> campo \<times> 'f labeled_value list
     \<Rightarrow> (string \<rightharpoonup> 'f pyval) \<times> string list" where
  "totals_step F acc item =
     (case acc of (totais, campos_com_erro) \<Rightarrow>
      case item of (cmp, valores) \<Rightarrow>
        (let valores_suspeitos = filter (\<lambda>v. status_validacao v = SUSPEITO) valores in
         if valores_suspeitos \<noteq> [] then
           (totais(total_key cmp \<mapsto> PNone,
                   erro_key cmp \<mapsto>
                     PStr (show_nat (length valores_suspeitos) @ '' valores suspeitos detectados''),
                   count_key cmp \<mapsto> PInt 0),
            campos_com_erro @ [campo_name cmp])
         else
           (let valores_ok = valores_ok_of valores in
            if valores_ok \<noteq> [] then
              (let total_v = py_sum F valores_ok in
               if f_abs_gt F total_v VALOR_MAX_RAZOAVEL then
                 (totais(total_key cmp \<mapsto> PNone,
                         erro_key cmp \<mapsto> PStr (''Total absurdo: '' @ f_format F total_v)),
                  campos_com_erro @ [campo_name cmp])
               else
                 (totais(total_key cmp \<mapsto> PFloat total_v,
                         count_key cmp \<mapsto> PInt (int (length valores_ok))),
                  campos_com_erro))
            else
              (totais(total_key cmp \<mapsto> PFloat (f_zero F), count_key cmp \<mapsto> PInt 0),
               campos_com_erro))))"

definition calculate_totals_safe ::
  "'f float_ops \<Rightarrow> (campo \<times> 'f labeled_value list) list \<Rightarrow> (string \<rightharpoonup> 'f pyval)" where
  "calculate_totals_safe F valores_por_campo =
     (case foldl (totals_step F) (Map.empty, []) valores_por_campo of
        (totais, campos_com_erro) \<Rightarrow>
          totais(''tem_valores_suspeitos'' \<mapsto> PBool (0 < length campos_com_erro),
                 ''campos_com_erro'' \<mapsto> PList campos_com_erro))"

text \<open>
  When the loop withholds the total of a field: it holds a suspect value, or the sum of
  its OK values is beyond the bound.
\<close>

definition field_blocked :: "'f float_ops \<Rightarrow> 'f labeled_value list \<Rightarrow> bool" where
  "field_blocked F valores =
     (list_ex (\<lambda>v. status_validacao v = SUSPEITO) valores \<or>
      (valores_ok_of valores \<noteq> [] \<and>
       f_abs_gt F (py_sum F (valores_ok_of valores)) VALOR_MAX_RAZOAVEL))"

text \<open>
  The invariant of the extractor in the words of the specification. A numeral is a text
  of digits, points and commas that begins and ends with a digit. A label precedes a
  numeral in a line when the line reads: anything, the label in any letter case, spaces,
  at most one \<open>:\<close> or \<open>-\<close>, spaces, the numeral, anything.
\<close>

definition numeral_text :: "ustr \<Rightarrow> bool" where
  "numeral_text num =
     (num \<noteq> [] \<and> is_digit (hd num) \<and> is_digit (last num) \<and>
      list_all (\<lambda>c. is_digit c \<or> c = 46 \<or> c = 44) num)"

definition label_precedes :: "unicode \<Rightarrow> ustr \<Rightarrow> ustr \<Rightarrow> ustr \<Rightarrow> bool" where
  "label_precedes U label num linha =
     (\<exists>pre l ws1 sep ws2 rest.
        linha = pre @ l @ ws1 @ sep @ ws2 @ num @ rest \<and>
        list_all2 (u_ieq U) label l \<and>
        list_all (u_isspace U) ws1 \<and> (sep = [] \<or> sep = [58] \<or> sep = [45]) \<and>
        list_all (u_isspace U) ws2)"

text \<open>
  Example values, with exact arithmetic: what the extractor yields for the lines
  \<open>SALDO ANTERIOR 168.376,96\<close>, \<open>SALDO ANTERIOR 3.254.269.459,98\<close>, \<open>ENTRADA 100,00\<close>
  and \<open>ENTRADA 23,00\<close> of page 1, grouped by field.
\<close>

definition saldo_ok :: "rat labeled_value" where
  "saldo_ok =
     \<lparr>rotulo = cps ''SALDO ANTERIOR'', campo = saldo_anterior, valor_texto = cps ''168.376,96'',
      valor_decimal = Some 168376.96, pagina = 1,
      linha_original = cps ''SALDO ANTERIOR 168.376,96'', status_validacao = OK,
      posicao_match = Some 0, motivo = None\<rparr>"

definition saldo_suspeito :: "rat labeled_value" where
  "saldo_suspeito =
     \<lparr>rotulo = cps ''SALDO ANTERIOR'', campo = saldo_anterior,
      valor_texto = cps ''3.254.269.459,98'', valor_decimal = None, pagina = 1,
      linha_original = cps ''SALDO ANTERIOR 3.254.269.459,98'', status_validacao = SUSPEITO,
      posicao_match = None, motivo = Some (motivo_prefix @ cps ''3.254.269.459,98'')\<rparr>"

definition entrada_100 :: "rat labeled_value" where
  "entrada_100 =
     \<lparr>rotulo = cps ''ENTRADA'', campo = entrada, valor_texto = cps ''100,00'',
      valor_decimal = Some 100, pagina = 1, linha_original = cps ''ENTRADA 100,00'',
      status_validacao = OK, posicao_match = Some 0, motivo = None\<rparr>"

definition entrada_23 :: "rat labeled_value" where
  "entrada_23 =
     \<lparr>rotulo = cps ''ENTRADA'', campo = entrada, valor_texto = cps ''23,00'',
      valor_decimal = Some 23, pagina = 1, linha_original = cps ''ENTRADA 23,00'',
      status_validacao = OK, posicao_match = Some 0, motivo = None\<rparr>"

definition example_fields :: "(campo \<times> rat labeled_value list) list" where
  "example_fields =
     [(saldo_anterior, [saldo_ok, saldo_suspeito]), (entrada, [entrada_100, entrada_23])]"

section \<open>The safe extractor (services/safe_convenio_extractor.py)\<close>

text \<open>
  A movement is the dictionary that \<open>_create_movimentacao_from_label\<close> builds. The slots
  that share a name with a field are written with the prefix \<open>m_\<close>. The identifier is a
  random UUID; it is an argument here.
\<close>

record 'f movimentacao =
  m_id :: string
  m_data :: "string option"
  descricao_item :: ustr
  m_entrada :: "'f option"
  m_saida :: "'f option"
  m_saldo :: "'f option"
  m_aplicacao :: "'f option"
  m_resgate :: "'f option"
  m_rendimentos :: "'f option"
  m_tarifa_paga :: "'f option"
  m_tarifa_devolvida :: "'f option"
  saldo_tarifa :: 'f
  tipo_documento :: string
  origem_documento :: string
  documento_id :: string
  linha_origem :: int
  texto_original :: ustr
  metodo_extracao :: string
  confianca :: string
  valor_validado :: bool

definition create_movimentacao_from_label ::
  "'f float_ops \<Rightarrow> string \<Rightarrow> 'f labeled_value \<Rightarrow> string \<Rightarrow> int \<Rightarrow> 'f movimentacao" where
  "create_movimentacao_from_label F uid valor_info doc_id page_num =
     (let cmp = campo valor_info;
          valor = valor_decimal valor_info;
          movimentacao =
            \<lparr>m_id = uid, m_data = None, descricao_item = rotulo valor_info,
             m_entrada = Some (f_zero F), m_saida = Some (f_zero F), m_saldo = Some (f_zero F),
             m_aplicacao = None, m_resgate = None, m_rendimentos = None,
             m_tarifa_paga = None, m_tarifa_devolvida = None, saldo_tarifa = f_zero F,
             tipo_documento = ''EXTRATO_CONVENIO_MOVIMENTACAO'',
             origem_documento = ''pagina_'' @ show_int page_num @ ''.pdf'',
             documento_id = doc_id, linha_origem = 0,
             texto_original = linha_original valor_info,
             metodo_extracao = ''label_based'', confianca = ''ALTO'', valor_validado = True\<rparr>
      in if cmp = entrada then movimentacao\<lparr>m_entrada := valor\<rparr>
         else if cmp = saida then movimentacao\<lparr>m_saida := valor\<rparr>
         else if cmp = saldo \<or> cmp = saldo_atual \<or> cmp = saldo_anterior then
           movimentacao\<lparr>m_saldo := valor\<rparr>
         else if cmp = aplicacao then movimentacao\<lparr>m_aplicacao := valor, m_entrada := valor\<rparr>
         else if cmp = resgate then movimentacao\<lparr>m_resgate := valor, m_saida := valor\<rparr>
         else if cmp = rendimento \<or> cmp = rendimento_bruto \<or> cmp = rendimento_liquido then
           movimentacao\<lparr>m_rendimentos := valor, m_entrada := valor\<rparr>
         else if cmp = tarifa_paga then movimentacao\<lparr>m_tarifa_paga := valor, m_saida := valor\<rparr>
         else if cmp = tarifa_devolvida then
           movimentacao\<lparr>m_tarifa_devolvida := valor, m_entrada := valor\<rparr>
         else movimentacao)"

text \<open>
  \<open>extract_from_page\<close>: one movement for every OK value of the page, field by field.
  \<open>new_id i\<close> is the \<open>i\<close>-th UUID drawn.
\<close>

record 'f page_result =
  pr_page :: int
  pr_movimentacoes :: "'f movimentacao list"
  pr_valores_raw :: "(campo \<times> 'f labeled_value list) list"
  pr_tem_erros :: bool

definition extract_from_page ::
  "unicode \<Rightarrow> 'f float_ops \<Rightarrow> (nat \<Rightarrow> string) \<Rightarrow> page_data \<Rightarrow> string \<Rightarrow> 'f page_result" where
  "extract_from_page U F new_id ocr_result doc_id =
     (let page_num = get_default (pd_page ocr_result) 0;
          texto = get_default (pd_text ocr_result) [];
          valores_por_campo = extract_from_text U F texto page_num;
          oks = filter (\<lambda>v. status_validacao v = OK) (concat (map snd valores_por_campo))
      in \<lparr>pr_page = page_num,
          pr_movimentacoes =
            map (\<lambda>(i, v). create_movimentacao_from_label F (new_id i) v doc_id page_num)
                (enumerate 0 oks),
          pr_valores_raw = valores_por_campo,
          pr_tem_erros = list_ex (\<lambda>v. status_validacao v \<noteq> OK) (concat (map snd valores_por_campo))\<rparr>)"

text \<open>\<open>x or 0\<close> on a slot: None and a zero are falsy.\<close>

definition or_zero :: "'f float_ops \<Rightarrow> 'f option \<Rightarrow> 'f" where
  "or_zero F x = (case x of None \<Rightarrow> f_zero F | Some y \<Rightarrow> if f_truthy F y then y else f_zero F)"

text \<open>The accumulation of one slot over the validated movements.\<close>

definition slot_total :: "'f float_ops \<Rightarrow> ('f movimentacao \<Rightarrow> 'f option) \<Rightarrow> 'f movimentacao list \<Rightarrow> 'f" where
  "slot_total F slot movimentacoes =
     foldl (\<lambda>acc mov. if valor_validado mov then f_add F acc (or_zero F (slot mov)) else acc)
           (f_zero F) movimentacoes"

definition MAX_RAZOAVEL :: int where
  "MAX_RAZOAVEL = 1000000000"

definition absurd :: "'f float_ops \<Rightarrow> 'f pyval \<Rightarrow> bool" where
  \<comment> \<open>\<open>isinstance(valor, (int, float)) and abs(valor) > MAX_RAZOAVEL\<close>\<close>
  "absurd F v =
     (case v of
        PFloat x \<Rightarrow> f_abs_gt F x MAX_RAZOAVEL
      | PInt n \<Rightarrow> \<bar>n\<bar> > MAX_RAZOAVEL
      | _ \<Rightarrow> False)"

text \<open>
  \<open>_calculate_safe_totals\<close>. Its last loop runs over \<open>totais.items()\<close> and, for an absurd
  value, stores a new key \<open>..._erro\<close> in the dictionary it is running over. The
  dictionary has then changed size, and the next step of the loop raises RuntimeError,
  also when the absurd value was the last item. So the function returns only when no
  total is absurd, and then blocks nothing.
\<close>

definition calculate_safe_totals ::
  "'f float_ops \<Rightarrow> 'f movimentacao list \<Rightarrow> error + (string \<rightharpoonup> 'f pyval)" where
  "calculate_safe_totals F movimentacoes =
     (let total_entrada = slot_total F m_entrada movimentacoes;
          total_saida = slot_total F m_saida movimentacoes;
          items =
            [(''total_entrada'', PFloat total_entrada),
             (''total_saida'', PFloat total_saida),
             (''saldo_final'', PFloat (f_sub F total_entrada total_saida)),
             (''total_aplicacao'', PFloat (slot_total F m_aplicacao movimentacoes)),
             (''total_resgate'', PFloat (slot_total F m_resgate movimentacoes)),
             (''total_rendimentos'', PFloat (slot_total F m_rendimentos movimentacoes)),
             (''count_movimentacoes'', PInt (int (length movimentacoes)))]
      in if list_ex (\<lambda>(k, v). absurd F v) items then Inl DictChangedSize
         else Inr ((map_of items)
                     (''tem_valores_suspeitos'' \<mapsto> PBool False,
                      ''campos_bloqueados'' \<mapsto> PList [])))"

text \<open>The condition under which that loop raises: one of the seven values is absurd.\<close>

definition some_total_absurd :: "'f float_ops \<Rightarrow> 'f movimentacao list \<Rightarrow> bool" where
  "some_total_absurd F movs =
     (f_abs_gt F (slot_total F m_entrada movs) MAX_RAZOAVEL \<or>
      f_abs_gt F (slot_total F m_saida movs) MAX_RAZOAVEL \<or>
      f_abs_gt F (f_sub F (slot_total F m_entrada movs) (slot_total F m_saida movs)) MAX_RAZOAVEL \<or>
      f_abs_gt F (slot_total F m_aplicacao movs) MAX_RAZOAVEL \<or>
      f_abs_gt F (slot_total F m_resgate movs) MAX_RAZOAVEL \<or>
      f_abs_gt F (slot_total F m_rendimentos movs) MAX_RAZOAVEL \<or>
      int (length movs) > MAX_RAZOAVEL)"

text \<open>
  What a value adds to the entries and to the exits, by the claim: its amount, when its
  field is one of those that feed the slot.
\<close>

definition entrada_fields :: "campo list" where
  "entrada_fields =
     [entrada, aplicacao, rendimento, rendimento_bruto, rendimento_liquido, tarifa_devolvida]"

definition saida_fields :: "campo list" where
  "saida_fields = [saida, resgate, tarifa_paga]"

definition amount_in :: "'f float_ops \<Rightarrow> campo list \<Rightarrow> 'f labeled_value \<Rightarrow> 'f" where
  "amount_in F slot_fields v =
     (if campo v \<in> set slot_fields then or_zero F (valor_decimal v) else f_zero F)"

definition amounts_total :: "'f float_ops \<Rightarrow> campo list \<Rightarrow> 'f labeled_value list \<Rightarrow> 'f" where
  "amounts_total F slot_fields vs =
     foldl (\<lambda>acc v. f_add F acc (amount_in F slot_fields v)) (f_zero F) vs"

text \<open>Example values: an application and a redemption of page 1.\<close>

definition aplicacao_50 :: "rat labeled_value" where
  "aplicacao_50 =
     \<lparr>rotulo = cps ''APLICACAO'', campo = aplicacao, valor_texto = cps ''50,00'',
      valor_decimal = Some 50, pagina = 1, linha_original = cps ''APLICACAO 50,00'',
      status_validacao = OK, posicao_match = Some 0, motivo = None\<rparr>"

definition resgate_30 :: "rat labeled_value" where
  "resgate_30 =
     \<lparr>rotulo = cps ''RESGATE'', campo = resgate, valor_texto = cps ''30,00'',
      valor_decimal = Some 30, pagina = 1, linha_original = cps ''RESGATE 30,00'',
      status_validacao = OK, posicao_match = Some 0, motivo = None\<rparr>"

definition example_movements :: "rat movimentacao list" where
  "example_movements =
     map (\<lambda>(uid, v). create_movimentacao_from_label exact_ops uid v ''doc'' 1)
         [(''id-1'', entrada_100), (''id-2'', aplicacao_50), (''id-3'', resgate_30)]"

section \<open>Theorems\<close>

subsection \<open>The job manager\<close>

lemma jobs_processing_table:
  "jobs processing_table ''j1'' = Some \<lparr>job_id = ''j1'', filename = ''a.pdf'', file_path = ''storage/uploads/j1.pdf'',
      status = PROCESSING, created_at = 0, started_at = Some 1, completed_at = None,
      total_pages = Some 25, processed_pages = 0, error_message = None\<rparr>"
  by (simp add: processing_table_def new_manager_def create_job_def Let_def start_job_def)

lemma jobs_done_table:
  "jobs done_table ''j1'' = Some \<lparr>job_id = ''j1'', filename = ''a.pdf'', file_path = ''storage/uploads/j1.pdf'',
      status = DONE, created_at = 0, started_at = Some 1, completed_at = Some 5,
      total_pages = Some 25, processed_pages = 0, error_message = None\<rparr>"
  by (simp add: done_table_def new_manager_def create_job_def Let_def start_job_def complete_job_def)

text \<open>
  Claim C6, as the code has it. \<open>start_job\<close> tests only that the job exists: for an
  unknown id it raises the not-found error, and for a job in any status whatever, PENDING or
  not, it succeeds, sets the status to PROCESSING, records the total and the start time and
  touches no other job and no result. There is no rejection for a job that is not PENDING.
\<close>

theorem start_job_any_status:
  "(jobs m jid = None \<longrightarrow> start_job m jid n now = Inl (JobNotFound jid)) \<and>
   (\<forall>j. jobs m jid = Some j \<longrightarrow>
      (\<exists>m'. start_job m jid n now = Inr m' \<and>
         map_option status (jobs m' jid) = Some PROCESSING \<and>
         map_option total_pages (jobs m' jid) = Some (Some n) \<and>
         map_option started_at (jobs m' jid) = Some (Some now) \<and>
         (\<forall>k. k \<noteq> jid \<longrightarrow> jobs m' k = jobs m k) \<and> results m' = results m))"
  by (auto simp: start_job_def)

theorem start_job_any_status_witness:
  "jobs processing_table ''j1'' \<noteq> None \<and>
   map_option status (jobs processing_table ''j1'') = Some PROCESSING \<and>
   (\<exists>m'. start_job processing_table ''j1'' 7 2 = Inr m' \<and>
      map_option status (jobs m' ''j1'') = Some PROCESSING \<and>
      map_option total_pages (jobs m' ''j1'') = Some (Some 7)) \<and>
   jobs processing_table ''zz'' = None \<and>
   start_job processing_table ''zz'' 7 2 = Inl (JobNotFound ''zz'')"
proof -
  have none: "jobs processing_table ''zz'' = None"
    by (simp add: processing_table_def new_manager_def create_job_def Let_def start_job_def)
  from start_job_any_status [of processing_table "''j1''" 7 2] jobs_processing_table
       start_job_any_status [of processing_table "''zz''" 7 2] none
  show ?thesis by auto
qed

text \<open>
  Claim C6 as stated fails: a job that is already PROCESSING with 25 pages is started
  again, the call is accepted, and the total becomes 7.
\<close>

theorem start_job_processing_counterexample:
  "map_option status (jobs processing_table ''j1'') = Some PROCESSING \<and>
   \<not> isl (start_job processing_table ''j1'' 7 2) \<and>
   map_option total_pages (jobs processing_table ''j1'') = Some (Some 25) \<and>
   map_option total_pages (jobs (exec processing_table (StartJob ''j1'' 7) 2) ''j1'') = Some (Some 7)"
  by (simp add: jobs_processing_table start_job_def)

text \<open>The check for PENDING is the endpoint's: it refuses a job in any other status.\<close>

lemma process_pdf_refuses_started:
  "jobs (manager sv) jid = Some j \<Longrightarrow> status j \<noteq> PENDING \<Longrightarrow> process_pdf sv jid = Inl Http400"
  by (simp add: process_pdf_def get_job_def)

text \<open>
  Claim C3, as the code has it. The manager never looks at the status of a job before it
  writes. On a job whose status is terminal, \<open>start_job\<close> sets PROCESSING,
  \<open>complete_job\<close> sets DONE, \<open>fail_job\<close> sets ERROR, \<open>cancel_job\<close> sets CANCELLED,
  and \<open>update_progress\<close> overwrites the page counter and nothing else. The one rejection
  is made a layer above, by the endpoint that calls \<open>cancel_job\<close>: it refuses a job
  that is DONE or ERROR with status 400.
\<close>

theorem terminal_job_operations:
  assumes "jobs m jid = Some j" and "terminal (status j)"
  shows "map_option status (jobs (exec m (StartJob jid n) now) jid) = Some PROCESSING \<and>
         map_option status (jobs (exec m (CompleteJob jid res) now) jid) = Some DONE \<and>
         map_option status (jobs (exec m (FailJob jid msg) now) jid) = Some ERROR \<and>
         map_option status (jobs (exec m (CancelJob jid) now) jid) = Some CANCELLED \<and>
         jobs (exec m (UpdateProgress jid p) now) jid = Some (j\<lparr>processed_pages := p\<rparr>) \<and>
         (status j \<noteq> CANCELLED \<longrightarrow> cancel_endpoint m jid now = Inl Http400)"
  using assms
  by (auto simp: start_job_def complete_job_def fail_job_def cancel_job_def update_progress_def
        cancel_endpoint_def get_job_def terminal_def)

theorem terminal_job_operations_witness:
  "terminal DONE \<and>
   map_option status (jobs done_table ''j1'') = Some DONE \<and>
   map_option status (jobs (exec done_table (CancelJob ''j1'') 9) ''j1'') = Some CANCELLED \<and>
   map_option status (jobs (exec done_table (StartJob ''j1'' 3) 9) ''j1'') = Some PROCESSING \<and>
   cancel_endpoint done_table ''j1'' 9 = Inl Http400"
  using terminal_job_operations [OF jobs_done_table, of 3 9]
  by (simp add: terminal_def jobs_done_table)

text \<open>On an unknown id every one of these operations leaves the manager as it was.\<close>

lemma unknown_job_operations:
  assumes "jobs m jid = None"
  shows "exec m (StartJob jid n) now = m \<and> exec m (CompleteJob jid res) now = m \<and>
         exec m (FailJob jid msg) now = m \<and> exec m (CancelJob jid) now = m \<and>
         exec m (UpdateProgress jid p) now = m"
  using assms
  by (simp add: start_job_def complete_job_def fail_job_def cancel_job_def update_progress_def)

text \<open>
  Claim C3 as stated fails: \<open>cancel_job\<close> on a job that is DONE makes it CANCELLED.
\<close>

theorem cancel_after_done_counterexample:
  "map_option status (jobs done_table ''j1'') = Some DONE \<and>
   map_option status (jobs (cancel_job done_table ''j1'' 9) ''j1'') = Some CANCELLED"
  by (simp add: jobs_done_table cancel_job_def)

lemma exec_pages_bounded:
  "pages_bounded m \<Longrightarrow> caller_ok m c \<Longrightarrow> pages_bounded (exec m c now)"
proof (cases c)
  case (CreateJob a b d)
  assume "pages_bounded m" with CreateJob show ?thesis
    by (auto simp: pages_bounded_def create_job_def Let_def split: if_splits)
next
  case (StartJob a n)
  assume "pages_bounded m" "caller_ok m c" with StartJob show ?thesis
    by (auto simp: pages_bounded_def start_job_def split: option.splits if_splits)
next
  case (UpdateProgress a p)
  assume "pages_bounded m" "caller_ok m c" with UpdateProgress show ?thesis
    by (auto simp: pages_bounded_def update_progress_def split: option.splits if_splits)
next
  case (CompleteJob a r)
  assume "pages_bounded m" with CompleteJob show ?thesis
    by (auto simp: pages_bounded_def complete_job_def split: option.splits if_splits)
next
  case (FailJob a r)
  assume "pages_bounded m" with FailJob show ?thesis
    by (auto simp: pages_bounded_def fail_job_def split: option.splits if_splits)
next
  case (CancelJob a)
  assume "pages_bounded m" with CancelJob show ?thesis
    by (auto simp: pages_bounded_def cancel_job_def split: option.splits if_splits)
qed

lemma run_pages_bounded:
  "pages_bounded m \<Longrightarrow> run_ok m cs \<Longrightarrow> pages_bounded (run m cs)"
  by (induction m cs rule: run.induct) (auto intro: exec_pages_bounded)

text \<open>
  Claim C7, as the code has it. The manager stores the counts it is given, so the bound
  is the callers' to keep: in every state reached from the empty table by a sequence of
  operations in which each \<open>update_progress\<close> passes a count within the job's known total
  and each \<open>start_job\<close> passes a total not below the count already recorded, every job
  whose total is known has \<open>processed_pages \<le> total_pages\<close>.
\<close>

theorem pages_bounded_reachable:
  "run_ok new_manager cs \<Longrightarrow> pages_bounded (run new_manager cs)"
  by (rule run_pages_bounded) (simp_all add: pages_bounded_def new_manager_def)

theorem pages_bounded_reachable_witness:
  "run_ok new_manager progress_calls \<and> pages_bounded (run new_manager progress_calls) \<and>
   map_option processed_pages (jobs (run new_manager progress_calls) ''j1'') = Some 10"
proof -
  have ok: "run_ok new_manager progress_calls"
    by (simp add: progress_calls_def new_manager_def create_job_def Let_def start_job_def)
  have "map_option processed_pages (jobs (run new_manager progress_calls) ''j1'') = Some 10"
    by (simp add: progress_calls_def new_manager_def create_job_def Let_def start_job_def update_progress_def)
  with ok pages_bounded_reachable [OF ok] show ?thesis by simp
qed

text \<open>
  Claim C7 as stated fails: create, start with 5 pages, report 10 pages processed.
\<close>

theorem pages_bounded_counterexample:
  "\<not> pages_bounded (run new_manager overrun_calls)"
proof
  assume b: "pages_bounded (run new_manager overrun_calls)"
  have "jobs (run new_manager overrun_calls) ''j1'' =
     Some \<lparr>job_id = ''j1'', filename = ''a.pdf'', file_path = ''storage/uploads/j1.pdf'',
      status = PROCESSING, created_at = 0, started_at = Some 1, completed_at = None,
      total_pages = Some 5, processed_pages = 10, error_message = None\<rparr>"
    by (simp add: overrun_calls_def new_manager_def create_job_def Let_def start_job_def update_progress_def)
  with b show False unfolding pages_bounded_def by fastforce
qed

subsection \<open>The uploaded file\<close>

text \<open>
  Claim C9 does not hold of main_refactored.py: whatever the worker's outcome,
  \<open>run_ocr_in_background\<close> leaves the stored files as they were, so the upload of a
  finished job stays on disk.
\<close>

theorem run_ocr_in_background_keeps_files:
  "files (run_ocr_in_background sv jid pdf_path outcome now) = files sv"
  by (simp add: run_ocr_in_background_def split: sum.splits)

text \<open>The background task of main.py does remove it, in its \<open>finally\<close> clause.\<close>

lemma process_in_background_unlinks:
  "pdf_path \<notin> old_files (process_in_background sv jid pdf_path outcome now)"
  by (simp add: process_in_background_def Let_def)

subsection \<open>Batches of pages\<close>

lemma range_up_step:
  "0 < b \<Longrightarrow> s < stop \<Longrightarrow> range_up s stop b = s # range_up (s + b) stop b"
  by (subst range_up.simps) simp

lemma range_up_done: "stop \<le> s \<Longrightarrow> range_up s stop b = []"
  by (subst range_up.simps) simp

lemma range_up_length:
  "0 < b \<Longrightarrow> s \<le> stop \<Longrightarrow> int (length (range_up s stop b)) = (stop - s + b - 1) div b"
proof (induction s stop b rule: range_up.induct)
  case (1 s stop b)
  show ?case
  proof (cases "s < stop")
    case True
    note lt = this
    show ?thesis
    proof (cases "s + b \<le> stop")
      case True
      with 1 lt have "int (length (range_up (s + b) stop b)) = (stop - (s + b) + b - 1) div b"
        by simp
      moreover have "(stop - s + b - 1) div b = (stop - (s + b) + b - 1) div b + 1"
      proof -
        have "stop - s + b - 1 = (stop - (s + b) + b - 1) + b" by simp
        then show ?thesis using \<open>0 < b\<close> by (metis div_add_self2 less_irrefl)
      qed
      ultimately show ?thesis using 1(2) lt by (simp add: range_up_step)
    next
      case False
      then have e: "range_up (s + b) stop b = []" by (simp add: range_up_done)
      have "0 < stop - s" "stop - s < b" using lt False by auto
      then have "(stop - s + b - 1) div b = 1"
      proof -
        have "stop - s + b - 1 = (stop - s - 1) + b" by simp
        moreover have "(stop - s - 1) div b = 0"
          using \<open>0 < stop - s\<close> \<open>stop - s < b\<close> by (simp add: div_pos_pos_trivial)
        ultimately show ?thesis using \<open>0 < b\<close> by (metis div_add_self2 less_irrefl add_0)
      qed
      then show ?thesis using 1(2) lt e by (simp add: range_up_step)
    qed
  next
    case False
    with 1 have "s = stop" by simp
    then show ?thesis using \<open>0 < b\<close> by (simp add: range_up_done)
  qed
qed

lemma range_up_nth:
  "0 < b \<Longrightarrow> i < length (range_up s stop b) \<Longrightarrow> range_up s stop b ! i = s + int i * b"
proof (induction s stop b arbitrary: i rule: range_up.induct)
  case (1 s stop b)
  show ?case
  proof (cases "s < stop")
    case True
    then have eq: "range_up s stop b = s # range_up (s + b) stop b"
      using 1(2) by (simp add: range_up_step)
    show ?thesis
    proof (cases i)
      case 0
      then show ?thesis by (simp add: eq)
    next
      case (Suc k)
      with 1(3) eq have "k < length (range_up (s + b) stop b)" by simp
      with 1(1) True 1(2) have "range_up (s + b) stop b ! k = s + b + int k * b" by simp
      then show ?thesis by (simp add: eq Suc algebra_simps)
    qed
  next
    case False
    with 1(3) show ?thesis by (simp add: range_up_done)
  qed
qed

lemma range_up_pages:
  "0 < b \<Longrightarrow> s \<le> n + 1 \<Longrightarrow>
   concat (map (\<lambda>start. [start..min (start + b - 1) n]) (range_up s (n + 1) b)) = [s..n]"
proof (induction s "n + 1" b rule: range_up.induct)
  case (1 s b)
  show ?case
  proof (cases "s < n + 1")
    case True
    then have eq: "range_up s (n + 1) b = s # range_up (s + b) (n + 1) b"
      using 1(2) by (simp add: range_up_step)
    show ?thesis
    proof (cases "s + b \<le> n + 1")
      case True
      with 1 \<open>s < n + 1\<close>
      have ih: "concat (map (\<lambda>start. [start..min (start + b - 1) n]) (range_up (s + b) (n + 1) b))
                = [s + b..n]" by simp
      have "[s..n] = [s..s + b - 1] @ [s + b..n]"
        using upto_split2 [of s "s + b - 1" n] True 1(2) by simp
      moreover have "min (s + b - 1) n = s + b - 1" using True by simp
      ultimately show ?thesis by (simp add: eq ih)
    next
      case False
      then have "range_up (s + b) (n + 1) b = []" by (simp add: range_up_done)
      moreover have "min (s + b - 1) n = n" using False by simp
      ultimately show ?thesis by (simp add: eq)
    qed
  next
    case False
    with 1(3) have "s = n + 1" by simp
    then show ?thesis by (simp add: range_up_done)
  qed
qed

text \<open>
  Claim C5. For a page count \<open>n \<ge> 0\<close> and a batch size \<open>b > 0\<close>, \<open>calculate_batches\<close>
  returns \<open>\<lceil>n / b\<rceil>\<close> ranges; the \<open>i\<close>-th (from 0) is \<open>(1 + i b, min ((i + 1) b) n)\<close>;
  each is non-empty and holds at most \<open>b\<close> pages; each ends before the next begins; and
  their pages, one range after the other, are exactly \<open>1, ..., n\<close> in order, so every page
  is covered once.
\<close>

theorem calculate_batches_cover:
  assumes "0 \<le> n" and "0 < b"
  shows "\<exists>bs. calculate_batches n b = Inr bs \<and>
           int (length bs) = \<lceil>real_of_int n / real_of_int b\<rceil> \<and>
           (\<forall>i < length bs. bs ! i = (1 + int i * b, min ((int i + 1) * b) n)) \<and>
           (\<forall>i < length bs. fst (bs ! i) \<le> snd (bs ! i) \<and> snd (bs ! i) - fst (bs ! i) + 1 \<le> b) \<and>
           (\<forall>i. Suc i < length bs \<longrightarrow> snd (bs ! i) < fst (bs ! Suc i)) \<and>
           concat (map pages_of bs) = [1..n]"
proof -
  let ?starts = "range_up 1 (n + 1) b"
  let ?bs = "map (\<lambda>start. (start, min (start + b - 1) n)) ?starts"
  have cb: "calculate_batches n b = Inr ?bs"
    using assms by (simp add: calculate_batches_def py_range_def)
  have len: "int (length ?starts) = (n + b - 1) div b"
    using range_up_length [of b 1 "n + 1"] assms by simp
  have ceil: "\<lceil>real_of_int n / real_of_int b\<rceil> = (n + b - 1) div b"
  proof -
    have "\<lceil>real_of_int n / real_of_int b\<rceil> = - (- n div b)"
      by (simp add: ceiling_divide_eq_div)
    also have "\<dots> = (n + b - 1) div b"
    proof -
      let ?q = "(n + b - 1) div b" and ?r = "(n + b - 1) mod b"
      have "?q * b + ?r = n + b - 1" by simp
      then have "- n = b * (- ?q) + (b - 1 - ?r)" by (simp add: algebra_simps)
      moreover have "0 \<le> b - 1 - ?r" "b - 1 - ?r < b"
        using assms(2) pos_mod_bound [of b "n + b - 1"] pos_mod_sign [of b "n + b - 1"] by linarith+
      ultimately have "- n div b = - ?q" by (rule int_div_pos_eq)
      then show ?thesis by simp
    qed
    finally show ?thesis .
  qed
  have nth: "\<forall>i < length ?bs. ?bs ! i = (1 + int i * b, min ((int i + 1) * b) n)"
    using assms(2) by (simp add: range_up_nth algebra_simps)
  have lenb: "\<And>i. i < length ?bs \<Longrightarrow> 1 + int i * b \<le> n"
  proof -
    fix i assume "i < length ?bs"
    then have "int i < (n + b - 1) div b" using len by simp
    then have "int i + 1 \<le> (n + b - 1) div b" by simp
    then have "(int i + 1) * b \<le> ((n + b - 1) div b) * b"
      using assms(2) by (simp add: mult_right_mono)
    also have "\<dots> \<le> n + b - 1"
    proof -
      have "(n + b - 1) div b * b + (n + b - 1) mod b = n + b - 1" by simp
      moreover have "0 \<le> (n + b - 1) mod b" using assms(2) by simp
      ultimately show ?thesis by linarith
    qed
    finally show "1 + int i * b \<le> n" by (simp add: algebra_simps)
  qed
  have sz: "\<forall>i < length ?bs. fst (?bs ! i) \<le> snd (?bs ! i) \<and> snd (?bs ! i) - fst (?bs ! i) + 1 \<le> b"
  proof (intro allI impI)
    fix i assume i: "i < length ?bs"
    with nth have e: "?bs ! i = (1 + int i * b, min ((int i + 1) * b) n)" by blast
    from lenb [OF i] assms(2) show "fst (?bs ! i) \<le> snd (?bs ! i) \<and> snd (?bs ! i) - fst (?bs ! i) + 1 \<le> b"
      unfolding e by (simp add: algebra_simps min_def)
  qed
  have asc: "\<forall>i. Suc i < length ?bs \<longrightarrow> snd (?bs ! i) < fst (?bs ! Suc i)"
  proof (intro allI impI)
    fix i assume i: "Suc i < length ?bs"
    then have i': "i < length ?bs" by simp
    from nth i have e1: "?bs ! Suc i = (1 + int (Suc i) * b, min ((int (Suc i) + 1) * b) n)" by blast
    from nth i' have e2: "?bs ! i = (1 + int i * b, min ((int i + 1) * b) n)" by blast
    show "snd (?bs ! i) < fst (?bs ! Suc i)"
      unfolding e1 e2 by (simp add: algebra_simps min_def)
  qed
  have cov: "concat (map pages_of ?bs) = [1..n]"
    using range_up_pages [of b 1 n] assms by (simp add: pages_of_def comp_def)
  have lenc: "int (length ?bs) = \<lceil>real_of_int n / real_of_int b\<rceil>"
    using len ceil by simp
  from cb lenc nth sz asc cov show ?thesis by blast
qed

theorem calculate_batches_cover_witness:
  "(0::int) \<le> 25 \<and> (0::int) < 10 \<and> calculate_batches 25 10 = Inr [(1, 10), (11, 20), (21, 25)] \<and>
   \<lceil>real_of_int 25 / real_of_int 10\<rceil> = 3"
proof -
  from calculate_batches_cover [of 25 10] obtain bs where
    bs: "calculate_batches 25 10 = Inr bs" and len: "int (length bs) = \<lceil>real_of_int 25 / real_of_int 10\<rceil>"
    by auto
  have "calculate_batches 25 10 = Inr [(1, 10), (11, 20), (21, 25)]"
    by (simp add: calculate_batches_def py_range_def range_up.simps)
  with bs len show ?thesis by auto
qed

subsection \<open>The character tables\<close>

lemma python_asciiD:
  assumes "python_ascii U"
  shows "c < 128 \<Longrightarrow> u_isspace U c = ((9 \<le> c \<and> c \<le> 13) \<or> (28 \<le> c \<and> c \<le> 32))"
    and "c < 128 \<Longrightarrow> u_isword U c =
           ((48 \<le> c \<and> c \<le> 57) \<or> (65 \<le> c \<and> c \<le> 90) \<or> c = 95 \<or> (97 \<le> c \<and> c \<le> 122))"
    and "c < 128 \<Longrightarrow> u_upper U c = [if 97 \<le> c \<and> c \<le> 122 then c - 32 else c]"
    and "p < 256 \<Longrightarrow> c < 128 \<Longrightarrow> u_ieq U p c = (p < 128 \<and> ascii_lower p = ascii_lower c)"
  using assms by (simp_all add: python_ascii_def ascii_unicode_def)

lemma python_ascii_ascii_unicode: "python_ascii ascii_unicode"
  by (auto simp: python_ascii_def ascii_unicode_def ascii_lower_def)


subsection \<open>The page relevance filter\<close>

lemma keyword_list_codes:
  "keyword_list =
     [[67, 79, 78, 86, 202, 78, 73, 79], [67, 79, 78, 86, 69, 78, 73, 79], [66, 65, 78, 67, 79],
      [68, 65, 68, 79, 83, 32, 66, 65, 78, 67, 193, 82, 73, 79, 83],
      [68, 65, 68, 79, 83, 32, 66, 65, 78, 67, 65, 82, 73, 79, 83],
      [65, 71, 202, 78, 67, 73, 65], [65, 71, 69, 78, 67, 73, 65], [67, 79, 78, 84, 65],
      [67, 79, 78, 84, 65, 32, 67, 79, 82, 82, 69, 78, 84, 69],
      [67, 79, 78, 84, 65, 32, 80, 79, 85, 80, 65, 78, 199, 65],
      [80, 79, 85, 80, 65, 78, 67, 65], [67, 80, 70], [67, 78, 80, 74],
      [73, 78, 83, 84, 73, 84, 85, 73, 199, 195, 79, 32, 70, 73, 78, 65, 78, 67, 69, 73, 82, 65],
      [73, 78, 83, 84, 73, 84, 85, 73, 67, 65, 79, 32, 70, 73, 78, 65, 78, 67, 69, 73, 82, 65],
      [66, 65, 78, 67, 79, 32, 68, 79, 32, 66, 82, 65, 83, 73, 76],
      [66, 82, 65, 68, 69, 83, 67, 79], [73, 84, 65, 85], [73, 84, 65, 85],
      [83, 65, 78, 84, 65, 78, 68, 69, 82], [67, 65, 73, 88, 65],
      [67, 65, 73, 88, 65, 32, 69, 67, 79, 78, 79, 77, 73, 67, 65],
      [78, 85, 66, 65, 78, 75], [73, 78, 84, 69, 82]]"
  by (simp add: keyword_list_def cps_def)

lemma high_priority_codes:
  "high_priority_keywords =
     [[67, 79, 78, 86, 202, 78, 73, 79], [67, 79, 78, 86, 69, 78, 73, 79],
      [68, 65, 68, 79, 83, 32, 66, 65, 78, 67, 193, 82, 73, 79, 83],
      [68, 65, 68, 79, 83, 32, 66, 65, 78, 67, 65, 82, 73, 79, 83]]"
  by (simp add: high_priority_keywords_def cps_def)

text \<open>
  Claim C8 does not hold of the code: the page text ITAU contains one keyword and none of
  the high-priority ones, yet it is relevant, because the list holds the entry ITAU twice
  and the count is over the entries of the list.
\<close>

theorem itau_alone_is_relevant:
  assumes "python_ascii U"
  shows "is_relevant_page U (cps ''ITAU'') \<and>
         keywords_found U (cps ''ITAU'') = {cps ''ITAU''} \<and>
         \<not> list_ex (\<lambda>kw. contains kw (py_upper U (cps ''ITAU''))) high_priority_keywords"
proof -
  have t: "cps ''ITAU'' = [73, 84, 65, 85]" by (simp add: cps_def)
  have up: "py_upper U [73, 84, 65, 85] = [73, 84, 65, 85]"
    by (simp add: py_upper_def python_asciiD(3) [OF assms])
  have st: "strip U [73, 84, 65, 85] = [73, 84, 65, 85]"
    by (simp add: strip_def python_asciiD(1) [OF assms])
  have kf: "filter (\<lambda>k. contains k [73, 84, 65, 85]) keyword_list = [[73, 84, 65, 85], [73, 84, 65, 85]]"
    unfolding keyword_list_codes by simp
  have hp: "\<not> list_ex (\<lambda>kw. contains kw [73, 84, 65, 85]) high_priority_keywords"
    unfolding high_priority_codes by simp
  show ?thesis
    unfolding t is_relevant_page_def keywords_found_def Let_def up st kf using hp by simp
qed

theorem itau_alone_is_relevant_witness:
  "python_ascii ascii_unicode \<and> is_relevant_page ascii_unicode (cps ''ITAU'') \<and>
   card (keywords_found ascii_unicode (cps ''ITAU'')) = 1"
  using itau_alone_is_relevant [OF python_ascii_ascii_unicode] python_ascii_ascii_unicode
  by simp

text \<open>
  What the code computes: a page is relevant when its text is not blank and it contains
  two distinct keywords, or ITAU, or a high-priority keyword.
\<close>

lemma count_twice:
  "length (filter P (xs @ [a, a] @ ys)) = length (filter P (xs @ [a] @ ys)) + (if P a then 1 else 0)"
  by simp

lemma is_relevant_page_iff:
  "is_relevant_page U text \<longleftrightarrow>
     strip U text \<noteq> [] \<and>
     (2 \<le> card (keywords_found U text) \<or> contains (cps ''ITAU'') (py_upper U text) \<or>
      (\<exists>kw \<in> set high_priority_keywords. contains kw (py_upper U text)))"
proof -
  let ?P = "\<lambda>k. contains k (py_upper U text)"
  let ?xs = "take 17 keyword_list" and ?ys = "drop 19 keyword_list"
  let ?a = "[73, 84, 65, 85] :: nat list"
  have a: "cps ''ITAU'' = ?a" by (simp add: cps_def)
  have split: "keyword_list = ?xs @ [?a, ?a] @ ?ys"
    unfolding keyword_list_codes by simp
  have d: "distinct (?xs @ [?a] @ ?ys)"
    unfolding keyword_list_codes by simp
  have s: "set (?xs @ [?a] @ ?ys) = set keyword_list"
    by (subst (3) split) auto
  have "keywords_found U text = set (filter ?P (?xs @ [?a] @ ?ys))"
    unfolding keywords_found_def set_filter s ..
  then have card: "card (keywords_found U text) = length (filter ?P (?xs @ [?a] @ ?ys))"
    using d by (simp only: distinct_card [OF distinct_filter [OF d]])
  have len: "length (filter ?P keyword_list) =
      length (filter ?P (?xs @ [?a] @ ?ys)) + (if ?P ?a then 1 else 0)"
    by (subst split) (rule count_twice)
  have mem: "?P ?a \<Longrightarrow> 1 \<le> length (filter ?P (?xs @ [?a] @ ?ys))"
    by simp
  have empty: "text = [] \<Longrightarrow> strip U text = []" by (simp add: strip_def)
  have "2 \<le> length (filter ?P keyword_list) \<longleftrightarrow> 2 \<le> card (keywords_found U text) \<or> ?P ?a"
    using len card mem by (cases "?P ?a") auto
  then show ?thesis
    using empty by (auto simp: is_relevant_page_def Let_def list_ex_iff a)
qed

text \<open>Every page that \<open>filter_pages\<close> keeps is a relevant one.\<close>

lemma filter_pages_relevant:
  "filter_pages U pds = Inr out \<Longrightarrow> p \<in> set out \<Longrightarrow>
   \<exists>t. pd_text p = Some t \<and> is_relevant_page U t"
proof (induction pds arbitrary: out)
  case Nil
  then show ?case by simp
next
  case (Cons pd rest)
  then show ?case
    by (auto simp: Let_def split: if_splits option.splits sum.splits)
qed

subsection \<open>The label extractor: evaluation\<close>

text \<open>The recursion of the dotted groups, by cases of the text.\<close>

lemma dot_groups_Nil: "dot_groups [] = ([], [])"
  by (subst dot_groups.simps) simp

lemma dot_groups_Cons:
  "dot_groups (c # r) =
     (if c = 46 \<and> takeWhile is_digit r \<noteq> [] then
        (case dot_groups (dropWhile is_digit r) of (g, rest) \<Rightarrow> (c # takeWhile is_digit r @ g, rest))
      else ([], c # r))"
  by (subst dot_groups.simps) simp

text \<open>The vocabulary and the two lines of the scenarios as code points.\<close>

lemma ROTULOS_VALIDOS_codes:
  "ROTULOS_VALIDOS =
     [([83, 65, 76, 68, 79, 32, 65, 78, 84, 69, 82, 73, 79, 82], saldo_anterior),
      ([83, 65, 76, 68, 79, 32, 65, 84, 85, 65, 76], saldo_atual),
      ([83, 65, 76, 68, 79], saldo),
      ([69, 78, 84, 82, 65, 68, 65], entrada),
      ([83, 65, 73, 68, 65], saida),
      ([83, 65, 205, 68, 65], saida),
      ([65, 80, 76, 73, 67, 65, 67, 65, 79], aplicacao),
      ([65, 80, 76, 73, 67, 65, 199, 195, 79], aplicacao),
      ([65, 80, 76, 73, 67, 65, 67, 79, 69, 83], aplicacao),
      ([65, 80, 76, 73, 67, 65, 199, 213, 69, 83], aplicacao),
      ([82, 69, 83, 71, 65, 84, 69], resgate),
      ([82, 69, 83, 71, 65, 84, 69, 83], resgate),
      ([82, 69, 78, 68, 73, 77, 69, 78, 84, 79], rendimento),
      ([82, 69, 78, 68, 73, 77, 69, 78, 84, 79, 83], rendimento),
      ([82, 69, 78, 68, 73, 77, 69, 78, 84, 79, 32, 66, 82, 85, 84, 79], rendimento_bruto),
      ([82, 69, 78, 68, 73, 77, 69, 78, 84, 79, 32, 76, 73, 81, 85, 73, 68, 79], rendimento_liquido),
      ([82, 69, 78, 68, 73, 77, 69, 78, 84, 79, 32, 76, 205, 81, 85, 73, 68, 79], rendimento_liquido),
      ([73, 77, 80, 79, 83, 84, 79, 32, 68, 69, 32, 82, 69, 78, 68, 65], ir),
      ([73, 82], ir),
      ([73, 79, 70], iof),
      ([84, 65, 82, 73, 70, 65], tarifa),
      ([84, 65, 82, 73, 70, 65, 32, 80, 65, 71, 65], tarifa_paga),
      ([84, 65, 82, 73, 70, 65, 32, 68, 69, 86, 79, 76, 86, 73, 68, 65], tarifa_devolvida),
      ([86, 65, 76, 79, 82, 32, 68, 65, 32, 67, 79, 84, 65], valor_cota),
      ([82, 69, 78, 84, 65, 66, 73, 76, 73, 68, 65, 68, 69], rentabilidade)]"
  by (simp add: ROTULOS_VALIDOS_def cps_def)


lemmas matcher_eval =
  finditer_def match_here_def boundary_def word_char_def first_char_def ascii_lower_def
  numeral_group_def opt_sep_def comma_group_def dot_groups_Nil dot_groups_Cons is_digit_def

lemma saldo_line_codes:
  "cps ''SALDO ANTERIOR 168.376,96'' =
     [83, 65, 76, 68, 79, 32, 65, 78, 84, 69, 82, 73, 79, 82, 32, 49, 54, 56, 46, 51, 55, 54, 44, 57, 54]"
  "cps ''SALDO ANTERIOR 3.254.269.459,98'' =
     [83, 65, 76, 68, 79, 32, 65, 78, 84, 69, 82, 73, 79, 82, 32, 51, 46, 50, 53, 52, 46, 50, 54, 57,
      46, 52, 53, 57, 44, 57, 56]"
  "cps ''SALDO ANTERIOR'' = [83, 65, 76, 68, 79, 32, 65, 78, 84, 69, 82, 73, 79, 82]"
  "cps ''168.376,96'' = [49, 54, 56, 46, 51, 55, 54, 44, 57, 54]"
  "cps ''3.254.269.459,98'' = [51, 46, 50, 53, 52, 46, 50, 54, 57, 46, 52, 53, 57, 44, 57, 56]"
  by (simp_all add: cps_def)

lemma parse_168:
  assumes "python_ascii U"
  shows "parse_brazilian_number U [49, 54, 56, 46, 51, 55, 54, 44, 57, 54] = Some (16837696 / 100)"
  by (simp add: parse_brazilian_number_def strip_def python_asciiD [OF assms] py_Decimal_def
        unsigned_decimal_def is_digit_def nat_of_digits_def VALOR_MAX_RAZOAVEL_def
        VALOR_MIN_RAZOAVEL_def Let_def)

lemma parse_3254:
  assumes "python_ascii U"
  shows "parse_brazilian_number U [51, 46, 50, 53, 52, 46, 50, 54, 57, 46, 52, 53, 57, 44, 57, 56] = None"
  by (simp add: parse_brazilian_number_def strip_def python_asciiD [OF assms] py_Decimal_def
        unsigned_decimal_def is_digit_def nat_of_digits_def VALOR_MAX_RAZOAVEL_def
        VALOR_MIN_RAZOAVEL_def Let_def)

lemma strip_saldo_lines:
  assumes "python_ascii U"
  shows "strip U [83, 65, 76, 68, 79, 32, 65, 78, 84, 69, 82, 73, 79, 82, 32, 49, 54, 56, 46, 51, 55, 54, 44, 57, 54]
         = [83, 65, 76, 68, 79, 32, 65, 78, 84, 69, 82, 73, 79, 82, 32, 49, 54, 56, 46, 51, 55, 54, 44, 57, 54]"
    and "strip U [83, 65, 76, 68, 79, 32, 65, 78, 84, 69, 82, 73, 79, 82, 32, 51, 46, 50, 53, 52, 46, 50, 54, 57,
      46, 52, 53, 57, 44, 57, 56] = [83, 65, 76, 68, 79, 32, 65, 78, 84, 69, 82, 73, 79, 82, 32, 51, 46, 50, 53, 52, 46, 50, 54, 57,
      46, 52, 53, 57, 44, 57, 56]"
  by (simp_all add: strip_def python_asciiD [OF assms])

lemma extract_168:
  assumes "python_ascii U"
  shows "extract_from_line U F (cps ''SALDO ANTERIOR 168.376,96'') page_num =
     [\<lparr>rotulo = cps ''SALDO ANTERIOR'', campo = saldo_anterior, valor_texto = cps ''168.376,96'',
       valor_decimal = Some (of_decimal F (16837696 / 100)), pagina = page_num,
       linha_original = cps ''SALDO ANTERIOR 168.376,96'', status_validacao = OK,
       posicao_match = Some 0, motivo = None\<rparr>]"
  unfolding saldo_line_codes extract_from_line_def ROTULOS_VALIDOS_codes
  by (simp add: matcher_eval python_asciiD [OF assms] make_value_def parse_168 [OF assms]
        strip_saldo_lines [OF assms])

lemma extract_3254:
  assumes "python_ascii U"
  shows "extract_from_line U F (cps ''SALDO ANTERIOR 3.254.269.459,98'') page_num =
     [\<lparr>rotulo = cps ''SALDO ANTERIOR'', campo = saldo_anterior, valor_texto = cps ''3.254.269.459,98'',
       valor_decimal = None, pagina = page_num,
       linha_original = cps ''SALDO ANTERIOR 3.254.269.459,98'', status_validacao = SUSPEITO,
       posicao_match = None, motivo = Some (motivo_prefix @ cps ''3.254.269.459,98'')\<rparr>]"
  unfolding saldo_line_codes extract_from_line_def ROTULOS_VALIDOS_codes
  by (simp add: matcher_eval python_asciiD [OF assms] make_value_def parse_3254 [OF assms]
        strip_saldo_lines [OF assms])

subsection \<open>The label extractor: the scenarios of the specification\<close>

lemma show_nat_1: "show_nat (Suc 0) = ''1''"
  by (simp add: show_nat.simps)

lemma dec: "(168376.96 :: rat) = 16837696 / 100"
  by simp

lemma split_saldo_3254:
  "split_on 10 [83, 65, 76, 68, 79, 32, 65, 78, 84, 69, 82, 73, 79, 82, 32, 51, 46, 50, 53, 52, 46, 50, 54, 57,
      46, 52, 53, 57, 44, 57, 56] = [[83, 65, 76, 68, 79, 32, 65, 78, 84, 69, 82, 73, 79, 82, 32, 51, 46, 50, 53, 52, 46, 50, 54, 57,
      46, 52, 53, 57, 44, 57, 56]]"
  by simp

text \<open>
  Claim C4. On any page, the line \<open>SALDO ANTERIOR 168.376,96\<close> yields exactly one value:
  label SALDO ANTERIOR, field \<open>saldo_anterior\<close>, status OK, and the float of the decimal
  168376.96 (the points are thousands separators, the comma is the decimal one). The line
  \<open>SALDO ANTERIOR 3.254.269.459,98\<close> yields exactly one value, SUSPEITO, with no number
  and with a reason; and the totals of that text have no total for \<open>saldo_anterior\<close>
  (it is None) and a reason for it. The runtime's character tables are assumed to be
  Python's on ASCII.
\<close>

theorem saldo_anterior_scenarios:
  assumes "python_ascii U"
  shows
    "extract_from_line U F (cps ''SALDO ANTERIOR 168.376,96'') page_num =
       [\<lparr>rotulo = cps ''SALDO ANTERIOR'', campo = saldo_anterior, valor_texto = cps ''168.376,96'',
         valor_decimal = Some (of_decimal F 168376.96), pagina = page_num,
         linha_original = cps ''SALDO ANTERIOR 168.376,96'', status_validacao = OK,
         posicao_match = Some 0, motivo = None\<rparr>] \<and>
     extract_from_line U F (cps ''SALDO ANTERIOR 3.254.269.459,98'') page_num =
       [\<lparr>rotulo = cps ''SALDO ANTERIOR'', campo = saldo_anterior,
         valor_texto = cps ''3.254.269.459,98'', valor_decimal = None, pagina = page_num,
         linha_original = cps ''SALDO ANTERIOR 3.254.269.459,98'', status_validacao = SUSPEITO,
         posicao_match = None, motivo = Some (motivo_prefix @ cps ''3.254.269.459,98'')\<rparr>] \<and>
     calculate_totals_safe F
         (extract_from_text U F (cps ''SALDO ANTERIOR 3.254.269.459,98'') page_num)
         (total_key saldo_anterior) = Some PNone \<and>
     calculate_totals_safe F
         (extract_from_text U F (cps ''SALDO ANTERIOR 3.254.269.459,98'') page_num)
         (erro_key saldo_anterior) = Some (PStr ''1 valores suspeitos detectados'')"
proof -
  let ?line = "cps ''SALDO ANTERIOR 3.254.269.459,98''"
  let ?v = "\<lparr>rotulo = cps ''SALDO ANTERIOR'', campo = saldo_anterior,
         valor_texto = cps ''3.254.269.459,98'', valor_decimal = None, pagina = page_num,
         linha_original = cps ''SALDO ANTERIOR 3.254.269.459,98'', status_validacao = SUSPEITO,
         posicao_match = None, motivo = Some (motivo_prefix @ cps ''3.254.269.459,98'')\<rparr> :: 'a labeled_value"
  have ok: "extract_from_line U F (cps ''SALDO ANTERIOR 168.376,96'') page_num =
       [\<lparr>rotulo = cps ''SALDO ANTERIOR'', campo = saldo_anterior, valor_texto = cps ''168.376,96'',
         valor_decimal = Some (of_decimal F 168376.96), pagina = page_num,
         linha_original = cps ''SALDO ANTERIOR 168.376,96'', status_validacao = OK,
         posicao_match = Some 0, motivo = None\<rparr>]"
    using extract_168 [OF assms, of F page_num] by (simp add: dec)
  have bad: "extract_from_line U F ?line page_num = [?v]"
    by (rule extract_3254 [OF assms])
  have one_line: "split_on 10 ?line = [?line]"
    unfolding saldo_line_codes by (rule split_saldo_3254)
  have nonblank: "strip U ?line \<noteq> []"
    unfolding saldo_line_codes by (simp add: strip_saldo_lines [OF assms])
  have grouped: "extract_from_text U F ?line page_num = [(saldo_anterior, [?v])]"
    by (simp add: extract_from_text_def one_line nonblank bad)
  have tot: "calculate_totals_safe F [(saldo_anterior, [?v])] (total_key saldo_anterior) = Some PNone"
    by (simp add: calculate_totals_safe_def totals_step_def total_key_def erro_key_def count_key_def)
  have err: "calculate_totals_safe F [(saldo_anterior, [?v])] (erro_key saldo_anterior)
               = Some (PStr ''1 valores suspeitos detectados'')"
    by (simp add: calculate_totals_safe_def totals_step_def total_key_def erro_key_def count_key_def
          show_nat_1)
  from ok bad tot err show ?thesis by (simp only: grouped)
qed

theorem saldo_anterior_scenarios_witness:
  "python_ascii ascii_unicode \<and>
   map valor_decimal
     (extract_from_line ascii_unicode exact_ops (cps ''SALDO ANTERIOR 168.376,96'') 1) =
     [Some 168376.96] \<and>
   map status_validacao
     (extract_from_line ascii_unicode exact_ops (cps ''SALDO ANTERIOR 3.254.269.459,98'') 1) =
     [SUSPEITO]"
  using saldo_anterior_scenarios [OF python_ascii_ascii_unicode, of exact_ops 1]
    python_ascii_ascii_unicode
  by (simp add: exact_ops_def)

subsection \<open>The label extractor: values follow labels\<close>

lemma match_literal_decomp:
  "match_literal U label before s = Some (lst, r) \<Longrightarrow>
   \<exists>l. s = l @ r \<and> list_all2 (u_ieq U) label l"
proof (induction label arbitrary: before s)
  case Nil
  then show ?case by simp
next
  case (Cons p ps)
  show ?case
  proof (cases s)
    case Nil
    with Cons.prems show ?thesis by simp
  next
    case (Cons c cs)
    with Cons.prems have ieq: "u_ieq U p c" and m: "match_literal U ps (Some c) cs = Some (lst, r)"
      by (simp_all split: if_splits)
    from Cons.IH [OF m] obtain l where "cs = l @ r" "list_all2 (u_ieq U) ps l" by blast
    with ieq Cons show ?thesis by (intro exI [of _ "c # l"]) simp
  qed
qed

lemma takeWhile_digits_text:
  "takeWhile is_digit s \<noteq> [] \<Longrightarrow>
   is_digit (hd (takeWhile is_digit s)) \<and> is_digit (last (takeWhile is_digit s))"
  by (metis hd_in_set last_in_set set_takeWhileD)

lemma dot_groups_decomp:
  "dot_groups s = (g, rest) \<Longrightarrow>
   s = g @ rest \<and> list_all (\<lambda>c. is_digit c \<or> c = 46) g \<and> (g \<noteq> [] \<longrightarrow> is_digit (last g))"
proof (induction s arbitrary: g rest rule: dot_groups.induct)
  case (1 s)
  show ?case
  proof (cases s)
    case Nil
    with 1(2) show ?thesis by (simp add: dot_groups_Nil)
  next
    case (Cons c r)
    show ?thesis
    proof (cases "c = 46 \<and> takeWhile is_digit r \<noteq> []")
      case True
      obtain g' rest' where rec: "dot_groups (dropWhile is_digit r) = (g', rest')"
        by (cases "dot_groups (dropWhile is_digit r)")
      from 1(1) [OF Cons True rec]
      have ih: "dropWhile is_digit r = g' @ rest'" "list_all (\<lambda>c. is_digit c \<or> c = 46) g'"
        "g' \<noteq> [] \<longrightarrow> is_digit (last g')" by auto
      from 1(2) Cons True rec have g: "g = c # takeWhile is_digit r @ g'" and rest: "rest = rest'"
        by (simp_all add: dot_groups_Cons)
      have "r = takeWhile is_digit r @ g' @ rest'"
        using ih(1) by (metis takeWhile_dropWhile_id)
      moreover have "list_all (\<lambda>c. is_digit c \<or> c = 46) (takeWhile is_digit r)"
        by (auto simp: list_all_iff dest: set_takeWhileD)
      moreover have "is_digit (last (takeWhile is_digit r @ g'))"
        using ih(3) takeWhile_digits_text [of r] True by (cases "g' = []") simp_all
      ultimately show ?thesis
        using Cons True ih(2) by (simp add: g rest)
    next
      case False
      with 1(2) Cons show ?thesis by (auto simp: dot_groups_Cons)
    qed
  qed
qed

lemma comma_group_decomp:
  "comma_group s = (g, rest) \<Longrightarrow>
   s = g @ rest \<and> list_all (\<lambda>c. is_digit c \<or> c = 44) g \<and> (g \<noteq> [] \<longrightarrow> is_digit (last g))"
proof (cases s)
  case Nil
  assume "comma_group s = (g, rest)"
  with Nil show ?thesis by (simp add: comma_group_def)
next
  case (Cons c r)
  assume a: "comma_group s = (g, rest)"
  show ?thesis
  proof (cases "c = 44 \<and> takeWhile is_digit r \<noteq> []")
    case True
    with a Cons have g: "g = c # takeWhile is_digit r" and rest: "rest = dropWhile is_digit r"
      by (simp_all add: comma_group_def)
    have "list_all (\<lambda>c. is_digit c \<or> c = 44) (takeWhile is_digit r)"
      by (auto simp: list_all_iff dest: set_takeWhileD)
    then show ?thesis
      using True Cons takeWhile_digits_text [of r] by (simp add: g rest)
  next
    case False
    with a Cons show ?thesis by (auto simp: comma_group_def)
  qed
qed

lemma numeral_group_decomp:
  assumes "numeral_group s = Some (num, rest)"
  shows "s = num @ rest \<and> numeral_text num"
proof -
  let ?d = "takeWhile is_digit s"
  from assms have d: "?d \<noteq> []" by (auto simp: numeral_group_def split: if_splits)
  obtain g r1 where dg: "dot_groups (dropWhile is_digit s) = (g, r1)"
    by (cases "dot_groups (dropWhile is_digit s)")
  obtain c r2 where cg: "comma_group r1 = (c, r2)" by (cases "comma_group r1")
  from assms d dg cg have num: "num = ?d @ g @ c" and rest: "rest = r2"
    by (simp_all add: numeral_group_def)
  from dot_groups_decomp [OF dg] have g: "dropWhile is_digit s = g @ r1"
    "list_all (\<lambda>c. is_digit c \<or> c = 46) g" "g \<noteq> [] \<longrightarrow> is_digit (last g)" by auto
  from comma_group_decomp [OF cg] have c: "r1 = c @ r2"
    "list_all (\<lambda>c. is_digit c \<or> c = 44) c" "c \<noteq> [] \<longrightarrow> is_digit (last c)" by auto
  have s: "s = ?d @ g @ c @ r2"
    using g(1) c(1) by (metis takeWhile_dropWhile_id)
  have all_d: "list_all (\<lambda>c. is_digit c \<or> c = 46 \<or> c = 44) ?d"
    by (auto simp: list_all_iff dest: set_takeWhileD)
  have all: "list_all (\<lambda>c. is_digit c \<or> c = 46 \<or> c = 44) num"
    using all_d g(2) c(2) by (auto simp: num list_all_iff)
  have hd: "is_digit (hd num)" using d takeWhile_digits_text [of s] by (simp add: num)
  have last: "is_digit (last num)"
    using d takeWhile_digits_text [of s] g(3) c(3)
    by (cases "c = []"; cases "g = []") (simp_all add: num)
  from s all hd last d show ?thesis by (simp add: numeral_text_def num rest)
qed

lemma opt_sep_decomp:
  "\<exists>sep. s = sep @ opt_sep s \<and> (sep = [] \<or> sep = [58] \<or> sep = [45])"
  by (cases s) (auto simp: opt_sep_def)

lemma spaces_decomp:
  "\<exists>ws. s = ws @ dropWhile (u_isspace U) s \<and> list_all (u_isspace U) ws"
  by (rule exI [of _ "takeWhile (u_isspace U) s"]) (auto simp: list_all_iff dest: set_takeWhileD)

lemma match_here_decomp:
  assumes "match_here U label before s = Some (num, rest)"
  shows "numeral_text num \<and>
         (\<exists>l ws1 sep ws2. s = l @ ws1 @ sep @ ws2 @ num @ rest \<and> list_all2 (u_ieq U) label l \<and>
            list_all (u_isspace U) ws1 \<and> (sep = [] \<or> sep = [58] \<or> sep = [45]) \<and>
            list_all (u_isspace U) ws2)"
proof -
  from assms obtain lst r where
    lit: "match_literal U label before s = Some (lst, r)" and
    grp: "numeral_group (dropWhile (u_isspace U) (opt_sep (dropWhile (u_isspace U) r))) = Some (num, rest)"
    by (auto simp: match_here_def split: if_splits option.splits)
  from match_literal_decomp [OF lit] obtain l where l: "s = l @ r" "list_all2 (u_ieq U) label l"
    by blast
  from spaces_decomp [of r U] obtain ws1 where
    ws1: "r = ws1 @ dropWhile (u_isspace U) r" "list_all (u_isspace U) ws1" by blast
  from opt_sep_decomp [of "dropWhile (u_isspace U) r"] obtain sep where
    sep: "dropWhile (u_isspace U) r = sep @ opt_sep (dropWhile (u_isspace U) r)"
      "sep = [] \<or> sep = [58] \<or> sep = [45]" by blast
  from spaces_decomp [of "opt_sep (dropWhile (u_isspace U) r)" U] obtain ws2 where
    ws2: "opt_sep (dropWhile (u_isspace U) r) =
            ws2 @ dropWhile (u_isspace U) (opt_sep (dropWhile (u_isspace U) r))"
      "list_all (u_isspace U) ws2" by blast
  from numeral_group_decomp [OF grp] have
    n: "dropWhile (u_isspace U) (opt_sep (dropWhile (u_isspace U) r)) = num @ rest"
      "numeral_text num" by auto
  have "s = l @ ws1 @ sep @ ws2 @ num @ rest"
    using l(1) ws1(1) sep(1) ws2(1) n(1) by metis
  with l(2) ws1(2) sep(2) ws2(2) n(2) show ?thesis by blast
qed

lemma label_precedes_Cons:
  "label_precedes U label num cs \<Longrightarrow> label_precedes U label num (c # cs)"
  unfolding label_precedes_def
  by (elim exE conjE) (metis append_Cons)

lemma scan_decomp:
  "(pos, num) \<in> set (scan U label p0 skip before s) \<Longrightarrow>
   numeral_text num \<and> label_precedes U label num s"
proof (induction s arbitrary: p0 skip before)
  case Nil
  then show ?case by simp
next
  case (Cons c cs)
  show ?case
  proof (cases "0 < skip")
    case True
    with Cons.prems have "(pos, num) \<in> set (scan U label (p0 + 1) (skip - 1) (Some c) cs)" by simp
    from Cons.IH [OF this] show ?thesis by (simp add: label_precedes_Cons)
  next
    case False
    show ?thesis
    proof (cases "match_here U label before (c # cs)")
      case None
      with False Cons.prems have "(pos, num) \<in> set (scan U label (p0 + 1) 0 (Some c) cs)" by simp
      from Cons.IH [OF this] show ?thesis by (simp add: label_precedes_Cons)
    next
      case (Some m)
      obtain g rest where m: "m = (g, rest)" by (cases m)
      from Cons.prems False Some m consider
        (here) "num = g" |
        (later) "(pos, num) \<in> set (scan U label (p0 + 1) (length cs - length rest) (Some c) cs)"
        by auto
      then show ?thesis
      proof cases
        case here
        from match_here_decomp [OF Some [unfolded m]] obtain l ws1 sep ws2 where
          "numeral_text g" "c # cs = l @ ws1 @ sep @ ws2 @ g @ rest" "list_all2 (u_ieq U) label l"
          "list_all (u_isspace U) ws1" "sep = [] \<or> sep = [58] \<or> sep = [45]"
          "list_all (u_isspace U) ws2" by blast
        then show ?thesis
          unfolding label_precedes_def here
          by (intro conjI exI [of _ "[]"] exI [of _ l] exI [of _ ws1] exI [of _ sep]
              exI [of _ ws2] exI [of _ rest]) simp_all
      next
        case later
        from Cons.IH [OF this] show ?thesis by (simp add: label_precedes_Cons)
      qed
    qed
  qed
qed

lemma make_value_fields:
  "rotulo (make_value U F linha page_num label cmp (start, t)) = label \<and>
   campo (make_value U F linha page_num label cmp (start, t)) = cmp \<and>
   valor_texto (make_value U F linha page_num label cmp (start, t)) = t \<and>
   pagina (make_value U F linha page_num label cmp (start, t)) = page_num"
  by (simp add: make_value_def split: option.splits)

lemma extract_from_line_labelled:
  assumes "v \<in> set (extract_from_line U F linha page_num)"
  shows "\<exists>(label, cmp) \<in> set ROTULOS_VALIDOS.
           rotulo v = label \<and> campo v = cmp \<and> pagina v = page_num \<and>
           numeral_text (valor_texto v) \<and> label_precedes U label (valor_texto v) linha"
proof -
  from assms obtain label cmp start t where
    mem: "(label, cmp) \<in> set ROTULOS_VALIDOS" and
    m: "(start, t) \<in> set (finditer U label linha)" and
    v: "v = make_value U F linha page_num label cmp (start, t)"
    by (auto simp: extract_from_line_def)
  from scan_decomp [OF m [unfolded finditer_def]] make_value_fields [of U F linha page_num label cmp start t] mem
  show ?thesis by (auto simp: v)
qed

lemma group_append_mem:
  "(c, vs) \<in> set (group_append k x d) \<Longrightarrow> v \<in> set vs \<Longrightarrow>
   (v = x \<and> c = k) \<or> (\<exists>vs0. (c, vs0) \<in> set d \<and> v \<in> set vs0)"
  by (induction k x d rule: group_append.induct) (auto split: if_splits)

lemma grouped_mem:
  "(c, vs) \<in> set (foldl (\<lambda>d x. group_append (key x) x d) d0 xs) \<Longrightarrow> v \<in> set vs \<Longrightarrow>
   (v \<in> set xs \<and> c = key v) \<or> (\<exists>vs0. (c, vs0) \<in> set d0 \<and> v \<in> set vs0)"
proof (induction xs arbitrary: d0)
  case Nil
  then show ?case by auto
next
  case (Cons x xs)
  from Cons.IH [of "group_append (key x) x d0"] Cons.prems
  have "(v \<in> set xs \<and> c = key v) \<or>
        (\<exists>vs0. (c, vs0) \<in> set (group_append (key x) x d0) \<and> v \<in> set vs0)" by simp
  then show ?case using group_append_mem [of c _ "key x" x d0 v] by auto
qed

text \<open>The groups of \<open>extract_from_text\<close> are a dictionary: no field comes twice.\<close>

lemma group_append_keys:
  "map fst (group_append k v d) = (if k \<in> set (map fst d) then map fst d else map fst d @ [k])"
  by (induction k v d rule: group_append.induct) auto

lemma grouped_distinct:
  "distinct (map fst d0) \<Longrightarrow>
   distinct (map fst (foldl (\<lambda>d x. group_append (key x) x d) d0 xs))"
proof (induction xs arbitrary: d0)
  case Nil
  then show ?case by simp
next
  case (Cons x xs)
  have "distinct (map fst (group_append (key x) x d0))"
    using Cons.prems by (simp add: group_append_keys)
  from Cons.IH [OF this] show ?case by simp
qed

lemma extract_from_text_distinct:
  "distinct (map fst (extract_from_text U F texto page_num))"
  unfolding extract_from_text_def Let_def by (rule grouped_distinct) simp

text \<open>
  Claim C1. Every value that \<open>extract_from_line\<close> returns carries a label of the
  vocabulary and that label's field, and its text is a numeral that the label precedes in
  the line, with nothing between them but spaces and at most one \<open>:\<close> or \<open>-\<close>. Every
  value in a group that \<open>extract_from_text\<close> returns is such a value of one of the lines
  of the text, grouped under its own field. So no value stands for a number without a
  label before it.
\<close>

theorem values_follow_labels:
  "(v \<in> set (extract_from_line U F linha page_num) \<longrightarrow>
      (\<exists>(label, cmp) \<in> set ROTULOS_VALIDOS.
          rotulo v = label \<and> campo v = cmp \<and> pagina v = page_num \<and>
          numeral_text (valor_texto v) \<and> label_precedes U label (valor_texto v) linha)) \<and>
   ((c, vs) \<in> set (extract_from_text U F texto page_num) \<and> v \<in> set vs \<longrightarrow>
      (\<exists>linha \<in> set (split_on 10 texto). \<exists>(label, cmp) \<in> set ROTULOS_VALIDOS.
          rotulo v = label \<and> campo v = cmp \<and> c = cmp \<and> pagina v = page_num \<and>
          numeral_text (valor_texto v) \<and> label_precedes U label (valor_texto v) linha))"
proof (intro conjI impI)
  assume "v \<in> set (extract_from_line U F linha page_num)"
  then show "\<exists>(label, cmp) \<in> set ROTULOS_VALIDOS.
          rotulo v = label \<and> campo v = cmp \<and> pagina v = page_num \<and>
          numeral_text (valor_texto v) \<and> label_precedes U label (valor_texto v) linha"
    by (rule extract_from_line_labelled)
next
  assume a: "(c, vs) \<in> set (extract_from_text U F texto page_num) \<and> v \<in> set vs"
  let ?vals = "concat (map (\<lambda>linha. if strip U linha \<noteq> [] then extract_from_line U F linha page_num
                                  else []) (split_on 10 texto))"
  from a have "(c, vs) \<in> set (foldl (\<lambda>d x. group_append (campo x) x d) [] ?vals)" "v \<in> set vs"
    by (simp_all add: extract_from_text_def Let_def)
  from grouped_mem [OF this] have v: "v \<in> set ?vals" and c: "c = campo v" by auto
  from v obtain l where l: "l \<in> set (split_on 10 texto)" "v \<in> set (extract_from_line U F l page_num)"
    by (auto split: if_splits)
  from extract_from_line_labelled [OF l(2)] l(1) c
  show "\<exists>linha \<in> set (split_on 10 texto). \<exists>(label, cmp) \<in> set ROTULOS_VALIDOS.
          rotulo v = label \<and> campo v = cmp \<and> c = cmp \<and> pagina v = page_num \<and>
          numeral_text (valor_texto v) \<and> label_precedes U label (valor_texto v) linha"
    by (intro bexI [of _ l]) auto
qed

theorem values_follow_labels_witness:
  "saldo_ok \<in> set (extract_from_line ascii_unicode exact_ops (cps ''SALDO ANTERIOR 168.376,96'') 1) \<and>
   label_precedes ascii_unicode (cps ''SALDO ANTERIOR'') (cps ''168.376,96'')
     (cps ''SALDO ANTERIOR 168.376,96'')"
proof -
  let ?line = "cps ''SALDO ANTERIOR 168.376,96''"
  have mem: "saldo_ok \<in> set (extract_from_line ascii_unicode exact_ops ?line 1)"
    using extract_168 [OF python_ascii_ascii_unicode, of exact_ops 1]
    by (simp add: saldo_ok_def exact_ops_def)
  from values_follow_labels [of saldo_ok ascii_unicode exact_ops ?line 1] mem
  have "label_precedes ascii_unicode (rotulo saldo_ok) (valor_texto saldo_ok) ?line" by auto
  with mem show ?thesis by (simp add: saldo_ok_def)
qed

subsection \<open>The totals\<close>

lemma campo_name_inject: "campo_name c = campo_name c' \<Longrightarrow> c = c'"
  by (cases c; cases c'; simp)

lemma campo_name_not_erro: "campo_name c \<noteq> campo_name c' @ ''_erro''"
  by (cases c; cases c'; simp)

lemma campo_name_not_count: "campo_name c \<noteq> campo_name c' @ ''_count''"
  by (cases c; cases c'; simp)

lemma erro_not_count: "(xs :: string) @ ''_erro'' \<noteq> ys @ ''_count''"
proof
  assume "xs @ ''_erro'' = ys @ ''_count''"
  then have "last (xs @ ''_erro'') = last (ys @ ''_count'')" by simp
  then show False by simp
qed

lemma key_simps [simp]:
  "(total_key c = total_key c') = (c = c')"
  "(erro_key c = erro_key c') = (c = c')"
  "(count_key c = count_key c') = (c = c')"
  "total_key c \<noteq> erro_key c'" "erro_key c' \<noteq> total_key c"
  "total_key c \<noteq> count_key c'" "count_key c' \<noteq> total_key c"
  "erro_key c \<noteq> count_key c'" "count_key c' \<noteq> erro_key c"
  using campo_name_not_erro [of c c'] campo_name_not_count [of c c']
    erro_not_count [of "campo_name c" "campo_name c'"]
  by (auto simp: total_key_def erro_key_def count_key_def dest: campo_name_inject)

lemma key_not_flag [simp]:
  "total_key c \<noteq> ''tem_valores_suspeitos''" "total_key c \<noteq> ''campos_com_erro''"
  "erro_key c \<noteq> ''tem_valores_suspeitos''" "erro_key c \<noteq> ''campos_com_erro''"
  by (simp_all add: total_key_def erro_key_def)

text \<open>What one round writes under the keys of its own field.\<close>

lemma totals_step_total:
  "fst (totals_step F (m, e) (c, vs)) (total_key c) =
     Some (if field_blocked F vs then PNone else PFloat (py_sum F (valores_ok_of vs)))"
  by (auto simp: totals_step_def field_blocked_def Let_def list_ex_iff filter_empty_conv py_sum_def)

lemma totals_step_erro:
  "field_blocked F vs \<Longrightarrow> \<exists>reason. fst (totals_step F (m, e) (c, vs)) (erro_key c) = Some (PStr reason)"
  by (auto simp: totals_step_def field_blocked_def Let_def list_ex_iff filter_empty_conv)

lemma totals_step_other:
  "c' \<noteq> c \<Longrightarrow>
   fst (totals_step F (m, e) (c, vs)) (total_key c') = m (total_key c') \<and>
   fst (totals_step F (m, e) (c, vs)) (erro_key c') = m (erro_key c')"
  by (auto simp: totals_step_def Let_def)

lemma totals_step_errors:
  "snd (totals_step F (m, e) (c, vs)) = e @ (if field_blocked F vs then [campo_name c] else [])"
  by (auto simp: totals_step_def field_blocked_def Let_def list_ex_iff filter_empty_conv)

lemma foldl_totals_other:
  "c' \<notin> fst ` set vpc \<Longrightarrow>
   fst (foldl (totals_step F) acc vpc) (total_key c') = fst acc (total_key c') \<and>
   fst (foldl (totals_step F) acc vpc) (erro_key c') = fst acc (erro_key c')"
proof (induction vpc arbitrary: acc)
  case Nil
  then show ?case by simp
next
  case (Cons x xs)
  obtain c vs where x: "x = (c, vs)" by (cases x)
  obtain m e where acc: "acc = (m, e)" by (cases acc)
  from Cons.prems x have ne: "c' \<noteq> c" and notin: "c' \<notin> fst ` set xs" by auto
  from Cons.IH [OF notin, of "totals_step F acc x"] totals_step_other [OF ne, of F m e vs]
  show ?case by (simp add: x acc)
qed

lemma foldl_totals_field:
  assumes "distinct (map fst vpc)" and "(c, vs) \<in> set vpc"
  shows "fst (foldl (totals_step F) acc vpc) (total_key c) =
           Some (if field_blocked F vs then PNone else PFloat (py_sum F (valores_ok_of vs))) \<and>
         (field_blocked F vs \<longrightarrow>
            (\<exists>reason. fst (foldl (totals_step F) acc vpc) (erro_key c) = Some (PStr reason)))"
  using assms
proof (induction vpc arbitrary: acc)
  case Nil
  then show ?case by simp
next
  case (Cons x xs)
  obtain m e where acc: "acc = (m, e)" by (cases acc)
  show ?case
  proof (cases "x = (c, vs)")
    case True
    with Cons.prems have "c \<notin> fst ` set xs" by auto
    from foldl_totals_other [OF this, of F "totals_step F acc x"]
      totals_step_total [of F m e c vs] totals_step_erro [of F vs m e c]
    show ?thesis by (auto simp: True acc)
  next
    case False
    with Cons.prems have "distinct (map fst xs)" "(c, vs) \<in> set xs" by auto
    from Cons.IH [OF this] show ?thesis by simp
  qed
qed

lemma foldl_totals_errors:
  "snd (foldl (totals_step F) acc vpc) =
     snd acc @ map (campo_name \<circ> fst) (filter (\<lambda>(c, vs). field_blocked F vs) vpc)"
proof (induction vpc arbitrary: acc)
  case Nil
  then show ?case by simp
next
  case (Cons x xs)
  obtain c vs where x: "x = (c, vs)" by (cases x)
  obtain m e where acc: "acc = (m, e)" by (cases acc)
  show ?case
    by (simp add: Cons.IH x acc totals_step_errors)
qed

text \<open>
  Claim C2. Take any field of the input of \<open>calculate_totals_safe\<close>, a dictionary (its
  keys are distinct). If one of the field's values is SUSPEITO, the total of the field is
  None and a reason is recorded, whatever OK values it also has. Otherwise the total is
  the sum of its OK values, unless that sum is beyond the bound of 1,000,000,000 in
  absolute value, when the total is None with a reason too. The flag
  \<open>tem_valores_suspeitos\<close> is true exactly when the total of some field is None. Of the
  float arithmetic only this is assumed: \<open>0.0\<close> is not beyond the bound.
\<close>

theorem calculate_totals_safe_blocks:
  assumes "distinct (map fst vpc)" and "(c, vs) \<in> set vpc"
      and "\<not> f_abs_gt F (f_zero F) VALOR_MAX_RAZOAVEL"
  shows
    "((\<exists>v \<in> set vs. status_validacao v = SUSPEITO) \<longrightarrow>
        calculate_totals_safe F vpc (total_key c) = Some PNone \<and>
        (\<exists>reason. calculate_totals_safe F vpc (erro_key c) = Some (PStr reason))) \<and>
     (\<not> (\<exists>v \<in> set vs. status_validacao v = SUSPEITO) \<longrightarrow>
        (if f_abs_gt F (py_sum F (valores_ok_of vs)) VALOR_MAX_RAZOAVEL
         then calculate_totals_safe F vpc (total_key c) = Some PNone \<and>
              (\<exists>reason. calculate_totals_safe F vpc (erro_key c) = Some (PStr reason))
         else calculate_totals_safe F vpc (total_key c) =
                Some (PFloat (py_sum F (valores_ok_of vs))))) \<and>
     (\<exists>b. calculate_totals_safe F vpc ''tem_valores_suspeitos'' = Some (PBool b) \<and>
          (b \<longleftrightarrow> (\<exists>(c', vs') \<in> set vpc. calculate_totals_safe F vpc (total_key c') = Some PNone)))"
proof -
  obtain m e where fold: "foldl (totals_step F) (Map.empty, []) vpc = (m, e)"
    by (cases "foldl (totals_step F) (Map.empty, []) vpc")
  have look: "calculate_totals_safe F vpc (total_key k) = m (total_key k)"
             "calculate_totals_safe F vpc (erro_key k) = m (erro_key k)" for k
    by (simp_all add: calculate_totals_safe_def fold)
  have field: "m (total_key k) = Some (if field_blocked F ws then PNone else PFloat (py_sum F (valores_ok_of ws)))"
              "field_blocked F ws \<Longrightarrow> \<exists>reason. m (erro_key k) = Some (PStr reason)"
    if "(k, ws) \<in> set vpc" for k ws
    using foldl_totals_field [OF assms(1) that, of F "(Map.empty, [])"] by (simp_all add: fold)
  have empty_sum: "valores_ok_of vs = [] \<Longrightarrow> \<not> f_abs_gt F (py_sum F (valores_ok_of vs)) VALOR_MAX_RAZOAVEL"
    using assms(3) by (simp add: py_sum_def)
  have blocked_iff: "field_blocked F vs \<longleftrightarrow>
      (\<exists>v \<in> set vs. status_validacao v = SUSPEITO) \<or>
      f_abs_gt F (py_sum F (valores_ok_of vs)) VALOR_MAX_RAZOAVEL"
    using empty_sum by (auto simp: field_blocked_def list_ex_iff)
  have e: "e = map (campo_name \<circ> fst) (filter (\<lambda>(c, vs). field_blocked F vs) vpc)"
    using foldl_totals_errors [of F "(Map.empty, [])" vpc] by (simp add: fold)
  have flag: "calculate_totals_safe F vpc ''tem_valores_suspeitos'' = Some (PBool (0 < length e))"
    by (simp add: calculate_totals_safe_def fold)
  have "(0 < length e) \<longleftrightarrow> (\<exists>(c', vs') \<in> set vpc. field_blocked F vs')"
    by (auto simp: e filter_empty_conv)
  also have "\<dots> \<longleftrightarrow> (\<exists>(c', vs') \<in> set vpc. m (total_key c') = Some PNone)"
    using field(1) by (fastforce split: if_splits)
  finally have flag_iff: "(0 < length e) \<longleftrightarrow>
      (\<exists>(c', vs') \<in> set vpc. calculate_totals_safe F vpc (total_key c') = Some PNone)"
    by (simp add: look)
  from field [OF assms(2)] blocked_iff flag flag_iff show ?thesis
    by (auto simp: look)
qed

theorem calculate_totals_safe_blocks_witness:
  "distinct (map fst example_fields) \<and>
   (saldo_anterior, [saldo_ok, saldo_suspeito]) \<in> set example_fields \<and>
   \<not> f_abs_gt exact_ops (f_zero exact_ops) VALOR_MAX_RAZOAVEL \<and>
   calculate_totals_safe exact_ops example_fields (total_key saldo_anterior) = Some PNone \<and>
   calculate_totals_safe exact_ops example_fields (total_key entrada) = Some (PFloat 123) \<and>
   calculate_totals_safe exact_ops example_fields ''tem_valores_suspeitos'' = Some (PBool True)"
proof -
  have d: "distinct (map fst example_fields)" by (simp add: example_fields_def)
  have m1: "(saldo_anterior, [saldo_ok, saldo_suspeito]) \<in> set example_fields"
   and m2: "(entrada, [entrada_100, entrada_23]) \<in> set example_fields"
    by (simp_all add: example_fields_def)
  have z: "\<not> f_abs_gt exact_ops (f_zero exact_ops) VALOR_MAX_RAZOAVEL"
    by (simp add: exact_ops_def VALOR_MAX_RAZOAVEL_def)
  have s: "status_validacao saldo_suspeito = SUSPEITO" "status_validacao entrada_100 = OK"
    "status_validacao entrada_23 = OK"
    by (simp_all add: saldo_suspeito_def entrada_100_def entrada_23_def)
  have sum: "py_sum exact_ops (valores_ok_of [entrada_100, entrada_23]) = 123"
    by (simp add: py_sum_def valores_ok_of_def List.map_filter_def exact_ops_def
          entrada_100_def entrada_23_def)
  have small: "\<not> f_abs_gt exact_ops 123 VALOR_MAX_RAZOAVEL"
    by (simp add: exact_ops_def VALOR_MAX_RAZOAVEL_def)
  from calculate_totals_safe_blocks [OF d m1 z] s
  have t1: "calculate_totals_safe exact_ops example_fields (total_key saldo_anterior) = Some PNone"
    and fl: "\<exists>b. calculate_totals_safe exact_ops example_fields ''tem_valores_suspeitos'' = Some (PBool b) \<and>
          (b \<longleftrightarrow> (\<exists>(c', vs') \<in> set example_fields.
                  calculate_totals_safe exact_ops example_fields (total_key c') = Some PNone))"
    by auto
  from calculate_totals_safe_blocks [OF d m2 z] s sum small
  have t2: "calculate_totals_safe exact_ops example_fields (total_key entrada) = Some (PFloat 123)"
    by auto
  from fl t1 m1 have "calculate_totals_safe exact_ops example_fields ''tem_valores_suspeitos'' = Some (PBool True)"
    by fastforce
  with d m1 z t1 t2 show ?thesis by simp
qed

subsection \<open>The safe extractor\<close>

lemma or_zero_zero: "or_zero F (Some (f_zero F)) = f_zero F"
  by (simp add: or_zero_def)

lemma create_slots:
  "m_entrada (create_movimentacao_from_label F uid v doc p) =
     (if campo v \<in> set entrada_fields then valor_decimal v else Some (f_zero F))"
  "m_saida (create_movimentacao_from_label F uid v doc p) =
     (if campo v \<in> set saida_fields then valor_decimal v else Some (f_zero F))"
  "valor_validado (create_movimentacao_from_label F uid v doc p)"
  by (cases "campo v"; simp add: create_movimentacao_from_label_def Let_def entrada_fields_def saida_fields_def)+

lemma slot_total_entrada:
  "foldl (\<lambda>acc mov. if valor_validado mov then f_add F acc (or_zero F (m_entrada mov)) else acc) a
     (map (\<lambda>(uid, v). create_movimentacao_from_label F uid v doc p) uvs) =
   foldl (\<lambda>acc v. f_add F acc (amount_in F entrada_fields v)) a (map snd uvs)"
  by (induction uvs arbitrary: a) (auto simp: create_slots amount_in_def or_zero_zero)

lemma slot_total_saida:
  "foldl (\<lambda>acc mov. if valor_validado mov then f_add F acc (or_zero F (m_saida mov)) else acc) a
     (map (\<lambda>(uid, v). create_movimentacao_from_label F uid v doc p) uvs) =
   foldl (\<lambda>acc v. f_add F acc (amount_in F saida_fields v)) a (map snd uvs)"
  by (induction uvs arbitrary: a) (auto simp: create_slots amount_in_def or_zero_zero)

lemma calculate_safe_totals_returns:
  "(\<exists>t. calculate_safe_totals F movs = Inr t) \<longleftrightarrow> \<not> some_total_absurd F movs"
  by (auto simp: calculate_safe_totals_def Let_def absurd_def some_total_absurd_def)

lemma calculate_safe_totals_raises:
  "some_total_absurd F movs \<Longrightarrow> calculate_safe_totals F movs = Inl DictChangedSize"
  by (auto simp: calculate_safe_totals_def Let_def absurd_def some_total_absurd_def)

text \<open>
  Claim C10. A value whose field is \<open>aplicacao\<close>, \<open>rendimento\<close>, \<open>rendimento_bruto\<close>,
  \<open>rendimento_liquido\<close> or \<open>tarifa_devolvida\<close> gives a movement whose \<open>entrada\<close> slot
  holds the value's amount, as its own slot does; a value whose field is \<open>resgate\<close> or
  \<open>tarifa_paga\<close> gives one whose \<open>saida\<close> slot holds it, as its own slot does. For
  the movements made from any list of values, \<open>_calculate_safe_totals\<close> returns exactly
  when none of its seven values is absurd, and then \<open>total_entrada\<close> adds up the amounts
  of the plain entries, applications, yields and refunded fees, and \<open>total_saida\<close> those
  of the plain exits, redemptions and paid fees.
\<close>

theorem movements_feed_totals:
  "(campo v \<in> {aplicacao, rendimento, rendimento_bruto, rendimento_liquido, tarifa_devolvida} \<longrightarrow>
      m_entrada (create_movimentacao_from_label F uid v doc p) = valor_decimal v \<and>
      (campo v = aplicacao \<longrightarrow>
         m_aplicacao (create_movimentacao_from_label F uid v doc p) = valor_decimal v) \<and>
      (campo v \<in> {rendimento, rendimento_bruto, rendimento_liquido} \<longrightarrow>
         m_rendimentos (create_movimentacao_from_label F uid v doc p) = valor_decimal v) \<and>
      (campo v = tarifa_devolvida \<longrightarrow>
         m_tarifa_devolvida (create_movimentacao_from_label F uid v doc p) = valor_decimal v)) \<and>
   (campo v \<in> {resgate, tarifa_paga} \<longrightarrow>
      m_saida (create_movimentacao_from_label F uid v doc p) = valor_decimal v \<and>
      (campo v = resgate \<longrightarrow>
         m_resgate (create_movimentacao_from_label F uid v doc p) = valor_decimal v) \<and>
      (campo v = tarifa_paga \<longrightarrow>
         m_tarifa_paga (create_movimentacao_from_label F uid v doc p) = valor_decimal v)) \<and>
   (\<forall>t. calculate_safe_totals F
           (map (\<lambda>(uid, v). create_movimentacao_from_label F uid v doc p) uvs) = Inr t \<longrightarrow>
        t ''total_entrada'' = Some (PFloat (amounts_total F entrada_fields (map snd uvs))) \<and>
        t ''total_saida'' = Some (PFloat (amounts_total F saida_fields (map snd uvs)))) \<and>
   ((\<exists>t. calculate_safe_totals F
           (map (\<lambda>(uid, v). create_movimentacao_from_label F uid v doc p) uvs) = Inr t) \<longleftrightarrow>
    \<not> some_total_absurd F (map (\<lambda>(uid, v). create_movimentacao_from_label F uid v doc p) uvs))"
proof (intro conjI impI allI)
  show "(\<exists>t. calculate_safe_totals F
           (map (\<lambda>(uid, v). create_movimentacao_from_label F uid v doc p) uvs) = Inr t) \<longleftrightarrow>
    \<not> some_total_absurd F (map (\<lambda>(uid, v). create_movimentacao_from_label F uid v doc p) uvs)"
    by (rule calculate_safe_totals_returns)
next
  fix t
  assume "calculate_safe_totals F
            (map (\<lambda>(uid, v). create_movimentacao_from_label F uid v doc p) uvs) = Inr t"
  then have t: "t ''total_entrada'' = Some (PFloat (slot_total F m_entrada
                  (map (\<lambda>(uid, v). create_movimentacao_from_label F uid v doc p) uvs)))"
               "t ''total_saida'' = Some (PFloat (slot_total F m_saida
                  (map (\<lambda>(uid, v). create_movimentacao_from_label F uid v doc p) uvs)))"
    by (auto simp: calculate_safe_totals_def Let_def split: if_splits)
  show "t ''total_entrada'' = Some (PFloat (amounts_total F entrada_fields (map snd uvs)))"
    by (simp add: t slot_total_def amounts_total_def slot_total_entrada)
  show "t ''total_saida'' = Some (PFloat (amounts_total F saida_fields (map snd uvs)))"
    by (simp add: t slot_total_def amounts_total_def slot_total_saida)
qed (auto simp: create_movimentacao_from_label_def Let_def)

theorem movements_feed_totals_witness:
  "campo aplicacao_50 = aplicacao \<and>
   m_entrada (create_movimentacao_from_label exact_ops ''id-2'' aplicacao_50 ''doc'' 1) = Some 50 \<and>
   campo resgate_30 = resgate \<and>
   m_saida (create_movimentacao_from_label exact_ops ''id-3'' resgate_30 ''doc'' 1) = Some 30 \<and>
   (\<exists>t. calculate_safe_totals exact_ops example_movements = Inr t \<and>
        t ''total_entrada'' = Some (PFloat 150) \<and> t ''total_saida'' = Some (PFloat 30))"
proof -
  let ?uvs = "[(''id-1'', entrada_100), (''id-2'', aplicacao_50), (''id-3'', resgate_30)]"
  have c: "campo aplicacao_50 = aplicacao" "campo resgate_30 = resgate" "campo entrada_100 = entrada"
    "valor_decimal aplicacao_50 = Some 50" "valor_decimal resgate_30 = Some 30"
    "valor_decimal entrada_100 = Some 100"
    by (simp_all add: aplicacao_50_def resgate_30_def entrada_100_def)
  have e: "amounts_total exact_ops entrada_fields (map snd ?uvs) = 150"
    by (simp add: amounts_total_def amount_in_def entrada_fields_def c or_zero_def exact_ops_def)
  have s: "amounts_total exact_ops saida_fields (map snd ?uvs) = 30"
    by (simp add: amounts_total_def amount_in_def saida_fields_def c or_zero_def exact_ops_def)
  have "\<exists>t. calculate_safe_totals exact_ops example_movements = Inr t"
    unfolding calculate_safe_totals_returns
    by (simp add: some_total_absurd_def example_movements_def slot_total_def
          create_movimentacao_from_label_def Let_def c or_zero_def exact_ops_def MAX_RAZOAVEL_def)
  then obtain t where t: "calculate_safe_totals exact_ops example_movements = Inr t" ..
  from movements_feed_totals [of aplicacao_50 exact_ops "''id-2''" "''doc''" 1 ?uvs]
    movements_feed_totals [of resgate_30 exact_ops "''id-3''" "''doc''" 1 ?uvs] t c e s
  show ?thesis by (simp add: example_movements_def)
qed

end
